theory Spec2Isabelle
  imports Main "HOL-Library.Word" "HOL-Library.Signed_Division"
begin

unbundle bit_operations_syntax

section \<open>The zlog logger core of zinx: data model\<close>

text \<open>
  The Go type \<open>int\<close> (and \<open>uint\<close>) is a 64-bit machine word. A value of type
  \<open>go_int\<close> is the bit pattern; \<open>sint\<close> reads it as the signed \<open>int\<close>, \<open>unat\<close> as the
  \<open>uint\<close> that \<open>uint(i)\<close> converts it to. Comparisons of Go \<open>int\<close>s are comparisons
  of \<open>sint\<close>; \<open>+\<close> and \<open>-\<close> wrap as in Go.
\<close>

type_synonym go_int = "64 word"

text \<open>A run-time panic of the Go program: an index out of range, or \<open>panic(s)\<close>.\<close>

datatype panic = IndexOutOfRange | PanicValue string

text \<open>The errors of package \<open>os\<close> that the logger tells apart.\<close>

datatype os_error = ErrInvalid | ErrPermission | ErrExist | ErrNotExist | ErrOther

text \<open>\<open>os.IsExist\<close>, \<open>os.IsNotExist\<close>, \<open>os.IsPermission\<close>; \<open>None\<close> is the nil error.\<close>

definition IsExist :: "os_error option \<Rightarrow> bool" where
  "IsExist e = (e = Some ErrExist)"

definition IsNotExist :: "os_error option \<Rightarrow> bool" where
  "IsNotExist e = (e = Some ErrNotExist)"

definition IsPermission :: "os_error option \<Rightarrow> bool" where
  "IsPermission e = (e = Some ErrPermission)"

text \<open>
  An open file (\<open>*os.File\<close>) is identified by a number; the nil pointer is \<open>None\<close>.
  An \<open>io.Writer\<close> is a writer handed to the constructor, the standard error stream, or a
  \<open>*os.File\<close> stored in the interface (which may be the nil pointer).
\<close>

type_synonym os_file = nat

datatype writer = Custom nat | Stderr | FileWriter "os_file option"

text \<open>The calls the logger makes to the operating system, in the order made.\<close>

datatype event =
    Stat string
  | MkdirAll string
  | OpenFile string bool
  | Close os_file
  | Write writer string

text \<open>The fields of \<open>time.Time\<close> that the logger reads.\<close>

record gotime =
  Year :: go_int
  Month :: go_int
  Day :: go_int
  Hour :: go_int
  Minute :: go_int
  Second :: go_int
  Nanosecond :: go_int

text \<open>
  What the surroundings answer during one call of \<open>OutPut\<close>: the clock, the call stack and
  the file system. \<open>openFile path create\<close> is \<open>os.OpenFile\<close> with or without \<open>O_CREATE\<close>;
  \<open>writeTo\<close> is the result of \<open>Write\<close> on a writer that is not the nil file.
\<close>

record env =
  now :: gotime
  caller :: "(string \<times> go_int) option"
  nowYearDay :: go_int
  nowStamp :: string
  stat :: "string \<Rightarrow> os_error option"
  mkdirAll :: "string \<Rightarrow> os_error option"
  openFile :: "string \<Rightarrow> bool \<Rightarrow> os_error + os_file"
  writeTo :: "writer \<Rightarrow> string \<Rightarrow> os_error option"

text \<open>The struct \<open>ZinxLoggerCore\<close>, without its two mutexes: the model runs one call at a time.\<close>

record ZinxLoggerCore =
  prefix :: string
  flag :: go_int
  out :: writer
  buf :: string
  file' :: "os_file option"
  isolationLevel :: go_int
  calldDepth :: go_int
  fileName :: string
  fileDir :: string
  lastWriteDate :: go_int

subsection \<open>Constants\<close>

definition BitDate :: go_int where "BitDate = push_bit 0 1"
definition BitTime :: go_int where "BitTime = push_bit 1 1"
definition BitMicroSeconds :: go_int where "BitMicroSeconds = push_bit 2 1"
definition BitLongFile :: go_int where "BitLongFile = push_bit 3 1"
definition BitShortFile :: go_int where "BitShortFile = push_bit 4 1"
definition BitLevel :: go_int where "BitLevel = push_bit 5 1"
definition BitStdFlag :: go_int where "BitStdFlag = BitDate OR BitTime"
definition BitDefault :: go_int where "BitDefault = BitLevel OR BitShortFile OR BitStdFlag"

definition LogDebug :: go_int where "LogDebug = 0"
definition LogInfo :: go_int where "LogInfo = 1"
definition LogWarn :: go_int where "LogWarn = 2"
definition LogError :: go_int where "LogError = 3"
definition LogPanic :: go_int where "LogPanic = 4"
definition LogFatal :: go_int where "LogFatal = 5"

definition levels :: "string list" where
  "levels = [''[DEBUG]'', ''[INFO]'', ''[WARN]'', ''[ERROR]'', ''[PANIC]'', ''[FATAL]'']"

definition NewZinxLog :: "writer \<Rightarrow> string \<Rightarrow> go_int \<Rightarrow> ZinxLoggerCore" where
  "NewZinxLog w p f =
     \<lparr>prefix = p, flag = f, out = w, buf = [], file' = None, isolationLevel = 0,
      calldDepth = 2, fileName = [], fileDir = [], lastWriteDate = 0\<rparr>"

subsection \<open>itoa\<close>

text \<open>\<open>byte(u%10) + '0'\<close>.\<close>

definition digit_byte :: "go_int \<Rightarrow> char" where
  "digit_byte d = char_of (unat d + 48)"

text \<open>
  The loop of \<open>itoa\<close> over the array \<open>b\<close> of 32 bytes and the position \<open>bp\<close>:
  \<open>for ; u > 0 || wID > 0; u /= 10 { bp--; wID--; b[bp] = byte(u%10) + '0' }\<close>.
  Writing \<open>b[bp]\<close> below index 0 panics.
\<close>

function itoa_loop :: "go_int \<Rightarrow> go_int \<Rightarrow> nat \<Rightarrow> char list \<Rightarrow> panic + nat \<times> char list" where
  "itoa_loop u wID bp b =
     (if 0 < u \<or> 0 < sint wID then
        (if bp = 0 then Inl IndexOutOfRange
         else itoa_loop (u div 10) (wID - 1) (bp - 1) (b[bp - 1 := digit_byte (u mod 10)]))
      else Inr (bp, b))"
  by pat_completeness auto
termination
  by (relation "measure (\<lambda>(u, wID, bp, b). bp)") auto

declare itoa_loop.simps [simp del]

definition itoa :: "string \<Rightarrow> go_int \<Rightarrow> go_int \<Rightarrow> panic + string" where
  "itoa bf i wID =
     (let u = i in
      if u = 0 \<and> sint wID \<le> 1 then Inr (bf @ [CHR ''0''])
      else case itoa_loop u wID 32 (replicate 32 (CHR 0x00)) of
             Inl p \<Rightarrow> Inl p
           | Inr (bp, b) \<Rightarrow> Inr (bf @ drop bp b))"

subsection \<open>formatHeader\<close>

text \<open>Sequencing of steps that may panic.\<close>

definition pbind :: "panic + 'a \<Rightarrow> ('a \<Rightarrow> panic + 'b) \<Rightarrow> panic + 'b" where
  "pbind m f = (case m of Inl p \<Rightarrow> Inl p | Inr x \<Rightarrow> f x)"

text \<open>
  The scan for the last path separator:
  \<open>short := file; for i := len(file) - 1; i > 0; i-- { if file[i] == '/' { short = file[i+1:]; break } }\<close>.
\<close>

function shortFile_loop :: "string \<Rightarrow> int \<Rightarrow> string" where
  "shortFile_loop fl i =
     (if 0 < i then
        (if fl ! nat i = CHR ''/'' then drop (nat i + 1) fl
         else shortFile_loop fl (i - 1))
      else fl)"
  by pat_completeness auto
termination
  by (relation "measure (\<lambda>(fl, i). nat i)") auto

declare shortFile_loop.simps [simp del]

definition shortFile :: "string \<Rightarrow> string" where
  "shortFile fl = shortFile_loop fl (int (length fl) - 1)"

text \<open>The date block of \<open>formatHeader\<close>.\<close>

definition headerDate :: "go_int \<Rightarrow> gotime \<Rightarrow> string \<Rightarrow> panic + string" where
  "headerDate fg t b =
     (if fg AND BitDate \<noteq> 0 then
        pbind (itoa b (Year t) 4) (\<lambda>b.
        pbind (itoa (b @ ''/'') (Month t) 2) (\<lambda>b.
        pbind (itoa (b @ ''/'') (Day t) 2) (\<lambda>b.
        Inr (b @ '' ''))))
      else Inr b)"

text \<open>The clock block; \<open>t.Nanosecond()/1e3\<close> is Go's truncating division.\<close>

definition headerClock :: "go_int \<Rightarrow> gotime \<Rightarrow> string \<Rightarrow> panic + string" where
  "headerClock fg t b =
     (if fg AND (BitTime OR BitMicroSeconds) \<noteq> 0 then
        pbind (itoa b (Hour t) 2) (\<lambda>b.
        pbind (itoa (b @ '':'') (Minute t) 2) (\<lambda>b.
        pbind (itoa (b @ '':'') (Second t) 2) (\<lambda>b.
        pbind (if fg AND BitMicroSeconds \<noteq> 0
               then itoa (b @ ''.'') (word_of_int (sint (Nanosecond t) sdiv 1000)) 6
               else Inr b) (\<lambda>b.
        Inr (b @ '' '')))))
      else Inr b)"

text \<open>The level block: \<open>levels[level]\<close> panics outside the table.\<close>

definition headerLevel :: "go_int \<Rightarrow> go_int \<Rightarrow> string \<Rightarrow> panic + string" where
  "headerLevel fg level b =
     (if fg AND BitLevel \<noteq> 0 then
        (if 0 \<le> sint level \<and> sint level < int (length levels)
         then Inr (b @ levels ! nat (sint level))
         else Inl IndexOutOfRange)
      else Inr b)"

text \<open>The file block.\<close>

definition headerFile :: "go_int \<Rightarrow> string \<Rightarrow> go_int \<Rightarrow> string \<Rightarrow> panic + string" where
  "headerFile fg fl line b =
     (if fg AND (BitShortFile OR BitLongFile) \<noteq> 0 then
        (let fl' = (if fg AND BitShortFile \<noteq> 0 then shortFile fl else fl) in
         pbind (itoa (b @ fl' @ '':'') line (- 1)) (\<lambda>b.
         Inr (b @ '': '')))
      else Inr b)"

definition formatHeader ::
  "ZinxLoggerCore \<Rightarrow> gotime \<Rightarrow> string \<Rightarrow> go_int \<Rightarrow> go_int \<Rightarrow> panic + ZinxLoggerCore" where
  "formatHeader log t fl line level =
     (let b = (if prefix log \<noteq> [] then buf log @ ''<'' @ prefix log @ ''>'' else buf log) in
      if flag log AND (BitDate OR BitTime OR BitMicroSeconds) \<noteq> 0 then
        pbind (headerDate (flag log) t b) (\<lambda>b.
        pbind (headerClock (flag log) t b) (\<lambda>b.
        pbind (headerLevel (flag log) level b) (\<lambda>b.
        pbind (headerFile (flag log) fl line b) (\<lambda>b.
        Inr (log\<lparr>buf := b\<rparr>)))))
      else Inr (log\<lparr>buf := b\<rparr>))"

subsection \<open>The file rotator\<close>

definition checkFileExist :: "env \<Rightarrow> string \<Rightarrow> bool \<times> event list" where
  "checkFileExist e filename =
     ((if IsNotExist (stat e filename) then False else True), [Stat filename])"

definition mkdirLog :: "env \<Rightarrow> string \<Rightarrow> os_error option \<times> event list" where
  "mkdirLog e dir =
     (let er = stat e dir;
          b = (er = None \<or> IsExist er)
      in if \<not> b then
           (let err = mkdirAll e dir
            in ((if err \<noteq> None then (if IsPermission err then err else None) else None),
                [Stat dir, MkdirAll dir]))
         else (None, [Stat dir]))"

definition closeFile :: "ZinxLoggerCore \<Rightarrow> ZinxLoggerCore \<times> event list" where
  "closeFile log =
     (case file' log of
        Some f \<Rightarrow> (log\<lparr>file' := None, out := Stderr\<rparr>, [Close f])
      | None \<Rightarrow> (log, []))"

text \<open>
  \<open>updateOutputFile\<close>. The test of the fast path is made twice, outside and inside the
  file lock; both results of \<open>mkdirLog\<close> and the error of \<open>os.OpenFile\<close> are discarded.
\<close>

definition updateOutputFile :: "env \<Rightarrow> ZinxLoggerCore \<Rightarrow> ZinxLoggerCore \<times> event list" where
  "updateOutputFile e log =
     (let yearDay = nowYearDay e in
      if lastWriteDate log = yearDay \<and> file' log \<noteq> None then (log, [])
      else if lastWriteDate log = yearDay \<and> file' log \<noteq> None then (log, [])
      else
        (let log = log\<lparr>lastWriteDate := yearDay\<rparr>;
             (_, ev1) = mkdirLog e (fileDir log);
             newDailyFile = fileDir log @ ''/'' @ fileName log @ ''.'' @ nowStamp e;
             (exist, ev2) = checkFileExist e newDailyFile;
             fl = (case openFile e newDailyFile (\<not> exist) of Inl _ \<Rightarrow> None | Inr f \<Rightarrow> Some f);
             ev3 = [OpenFile newDailyFile (\<not> exist)];
             (log, ev4) = (if file' log \<noteq> None then closeFile log else (log, []))
         in (log\<lparr>file' := fl, out := FileWriter fl\<rparr>, ev1 @ ev2 @ ev3 @ ev4)))"

definition Flags :: "ZinxLoggerCore \<Rightarrow> go_int" where
  "Flags log = flag log"

definition ResetFlags :: "go_int \<Rightarrow> ZinxLoggerCore \<Rightarrow> ZinxLoggerCore" where
  "ResetFlags fg log = log\<lparr>flag := fg\<rparr>"

definition AddFlag :: "go_int \<Rightarrow> ZinxLoggerCore \<Rightarrow> ZinxLoggerCore" where
  "AddFlag fg log = log\<lparr>flag := flag log OR fg\<rparr>"

definition SetPrefix :: "string \<Rightarrow> ZinxLoggerCore \<Rightarrow> ZinxLoggerCore" where
  "SetPrefix p log = log\<lparr>prefix := p\<rparr>"

definition SetLogFile :: "string \<Rightarrow> string \<Rightarrow> ZinxLoggerCore \<Rightarrow> ZinxLoggerCore" where
  "SetLogFile dir name log = log\<lparr>fileDir := dir, fileName := name\<rparr>"

definition SetLogLevel :: "go_int \<Rightarrow> ZinxLoggerCore \<Rightarrow> ZinxLoggerCore" where
  "SetLogLevel logLevel log = log\<lparr>isolationLevel := logLevel\<rparr>"

subsection \<open>OutPut\<close>

text \<open>
  \<open>Write\<close> on the writer \<open>w\<close>: the method of \<open>*os.File\<close> returns \<open>ErrInvalid\<close> on the nil
  pointer; every other writer answers as the surroundings say.
\<close>

definition writeOut :: "env \<Rightarrow> writer \<Rightarrow> string \<Rightarrow> os_error option" where
  "writeOut e w bs = (case w of FileWriter None \<Rightarrow> Some ErrInvalid | _ \<Rightarrow> writeTo e w bs)"

text \<open>
  The file and line of the caller, looked up only when a file flag is set:
  \<open>_, file, line, ok = runtime.Caller(log.calldDepth)\<close>, with \<open>unknown-file\<close> and 0
  when \<open>ok\<close> is false; otherwise the zero values of \<open>var file string\<close> and
  \<open>var line int\<close>.
\<close>

definition callerInfo :: "env \<Rightarrow> ZinxLoggerCore \<Rightarrow> string \<times> go_int" where
  "callerInfo e log =
     (if flag log AND (BitShortFile OR BitLongFile) \<noteq> 0 then
        (case caller e of Some (f, l) \<Rightarrow> (f, l) | None \<Rightarrow> (''unknown-file'', 0))
      else ([], 0))"

text \<open>
  \<open>OutPut\<close> returns the logger, the system calls made and the error of the write; a panic
  of \<open>formatHeader\<close> unwinds the call.
\<close>

definition OutPut ::
  "env \<Rightarrow> ZinxLoggerCore \<Rightarrow> go_int \<Rightarrow> string \<Rightarrow>
     panic + ZinxLoggerCore \<times> event list \<times> os_error option" where
  "OutPut e log level s =
     (let (fl, line) = callerInfo e log;
          log = log\<lparr>buf := []\<rparr>
      in pbind (formatHeader log (now e) fl line level) (\<lambda>log.
         let log = log\<lparr>buf := buf log @ s\<rparr>;
             log = (if 0 < length s \<and> s ! (length s - 1) \<noteq> CHR 0x0A
                    then log\<lparr>buf := buf log @ [CHR 0x0A]\<rparr> else log);
             (log, ev) = updateOutputFile e log;
             err = writeOut e (out log) (buf log)
         in Inr (log, ev @ [Write (out log) (buf log)], err)))"

definition verifyLogIsolation :: "ZinxLoggerCore \<Rightarrow> go_int \<Rightarrow> bool" where
  "verifyLogIsolation log logLevel =
     (if sint (isolationLevel log) > sint logLevel then True else False)"

subsection \<open>The severity methods\<close>

text \<open>How a call of a severity method ends.\<close>

datatype outcome = Returned | Exited go_int | Panicked panic

text \<open>
  \<open>_ = log.OutPut(level, s)\<close> followed by what the method does next: the error of the
  write is dropped; a panic inside \<open>OutPut\<close> ends the method. The logger behind a panic
  is not modelled: the result keeps the one the method was called with.
\<close>

definition emit_then ::
  "env \<Rightarrow> ZinxLoggerCore \<Rightarrow> go_int \<Rightarrow> string \<Rightarrow> outcome \<Rightarrow>
     ZinxLoggerCore \<times> event list \<times> outcome" where
  "emit_then e log level s after =
     (case OutPut e log level s of
        Inl p \<Rightarrow> (log, [], Panicked p)
      | Inr (log', ev, _) \<Rightarrow> (log', ev, after))"

text \<open>
  \<open>fmt.Sprintln\<close> on operands already rendered in their default format: a space between
  operands, a newline at the end. The text made by \<open>fmt.Sprintf\<close> or \<open>fmt.Sprint\<close> is an
  argument of the model.
\<close>

fun joinSpace :: "string list \<Rightarrow> string" where
  "joinSpace [] = []"
| "joinSpace [v] = v"
| "joinSpace (v # vs) = v @ '' '' @ joinSpace vs"

definition Sprintln :: "string list \<Rightarrow> string" where
  "Sprintln vs = joinSpace vs @ [CHR 0x0A]"

definition Debugf :: "env \<Rightarrow> ZinxLoggerCore \<Rightarrow> string \<Rightarrow> ZinxLoggerCore \<times> event list \<times> outcome" where
  "Debugf e log s =
     (if verifyLogIsolation log LogDebug then (log, [], Returned)
      else emit_then e log LogDebug s Returned)"

definition Debug :: "env \<Rightarrow> ZinxLoggerCore \<Rightarrow> string list \<Rightarrow> ZinxLoggerCore \<times> event list \<times> outcome" where
  "Debug e log v =
     (if verifyLogIsolation log LogDebug then (log, [], Returned)
      else emit_then e log LogDebug (Sprintln v) Returned)"

definition Infof :: "env \<Rightarrow> ZinxLoggerCore \<Rightarrow> string \<Rightarrow> ZinxLoggerCore \<times> event list \<times> outcome" where
  "Infof e log s =
     (if verifyLogIsolation log LogInfo then (log, [], Returned)
      else emit_then e log LogInfo s Returned)"

definition Info :: "env \<Rightarrow> ZinxLoggerCore \<Rightarrow> string list \<Rightarrow> ZinxLoggerCore \<times> event list \<times> outcome" where
  "Info e log v =
     (if verifyLogIsolation log LogInfo then (log, [], Returned)
      else emit_then e log LogInfo (Sprintln v) Returned)"

definition Warnf :: "env \<Rightarrow> ZinxLoggerCore \<Rightarrow> string \<Rightarrow> ZinxLoggerCore \<times> event list \<times> outcome" where
  "Warnf e log s =
     (if verifyLogIsolation log LogWarn then (log, [], Returned)
      else emit_then e log LogWarn s Returned)"

definition Warn :: "env \<Rightarrow> ZinxLoggerCore \<Rightarrow> string list \<Rightarrow> ZinxLoggerCore \<times> event list \<times> outcome" where
  "Warn e log v =
     (if verifyLogIsolation log LogWarn then (log, [], Returned)
      else emit_then e log LogWarn (Sprintln v) Returned)"

definition Errorf :: "env \<Rightarrow> ZinxLoggerCore \<Rightarrow> string \<Rightarrow> ZinxLoggerCore \<times> event list \<times> outcome" where
  "Errorf e log s =
     (if verifyLogIsolation log LogError then (log, [], Returned)
      else emit_then e log LogError s Returned)"

definition Error :: "env \<Rightarrow> ZinxLoggerCore \<Rightarrow> string list \<Rightarrow> ZinxLoggerCore \<times> event list \<times> outcome" where
  "Error e log v =
     (if verifyLogIsolation log LogError then (log, [], Returned)
      else emit_then e log LogError (Sprintln v) Returned)"

text \<open>\<open>Fatalf\<close> and \<open>Fatal\<close>: \<open>os.Exit(1)\<close> after the emit.\<close>

definition Fatalf :: "env \<Rightarrow> ZinxLoggerCore \<Rightarrow> string \<Rightarrow> ZinxLoggerCore \<times> event list \<times> outcome" where
  "Fatalf e log s =
     (if verifyLogIsolation log LogFatal then (log, [], Returned)
      else emit_then e log LogFatal s (Exited 1))"

definition Fatal :: "env \<Rightarrow> ZinxLoggerCore \<Rightarrow> string list \<Rightarrow> ZinxLoggerCore \<times> event list \<times> outcome" where
  "Fatal e log v =
     (if verifyLogIsolation log LogFatal then (log, [], Returned)
      else emit_then e log LogFatal (Sprintln v) (Exited 1))"

text \<open>\<open>Panicf\<close> and \<open>Panic\<close>: \<open>panic(s)\<close> after the emit.\<close>

definition Panicf :: "env \<Rightarrow> ZinxLoggerCore \<Rightarrow> string \<Rightarrow> ZinxLoggerCore \<times> event list \<times> outcome" where
  "Panicf e log s =
     (if verifyLogIsolation log LogPanic then (log, [], Returned)
      else emit_then e log LogPanic s (Panicked (PanicValue s)))"

definition Panic :: "env \<Rightarrow> ZinxLoggerCore \<Rightarrow> string list \<Rightarrow> ZinxLoggerCore \<times> event list \<times> outcome" where
  "Panic e log v =
     (if verifyLogIsolation log LogPanic then (log, [], Returned)
      else (let s = Sprintln v in emit_then e log LogPanic s (Panicked (PanicValue s))))"

text \<open>
  \<open>Stack\<close>: \<open>msg\<close> is \<open>fmt.Sprint(v...)\<close> and \<open>trace\<close> is the text that \<open>runtime.Stack\<close>
  wrote; there is no test of the isolation level.
\<close>

definition Stack :: "env \<Rightarrow> ZinxLoggerCore \<Rightarrow> string \<Rightarrow> string \<Rightarrow> ZinxLoggerCore \<times> event list \<times> outcome" where
  "Stack e log msg trace =
     (let s = msg;
          s = s @ [CHR 0x0A];
          s = s @ trace;
          s = s @ [CHR 0x0A]
      in emit_then e log LogError s Returned)"

subsection \<open>Decimal text, as the specification words it\<close>

text \<open>
  The decimal digits of a positive number, most significant first (no digit for 0); the
  decimal numeral of a number (\<open>0\<close> is the one digit \<open>0\<close>); and padding with zeros on the
  left up to a width. These follow the specification's "fixed-width zero-padded decimals"
  and are what \<open>itoa\<close> is compared with.
\<close>

function spec_digits :: "nat \<Rightarrow> string" where
  "spec_digits n = (if n = 0 then [] else spec_digits (n div 10) @ [char_of (48 + n mod 10)])"
  by pat_completeness auto
termination
  by (relation "measure (\<lambda>n. n)") auto

declare spec_digits.simps [simp del]

definition spec_decimal :: "nat \<Rightarrow> string" where
  "spec_decimal n = (if n = 0 then ''0'' else spec_digits n)"

definition spec_pad :: "nat \<Rightarrow> string \<Rightarrow> string" where
  "spec_pad w s = replicate (w - length s) (CHR ''0'') @ s"

text \<open>What the loop of \<open>itoa\<close> writes for \<open>u\<close> and \<open>wID\<close>.\<close>

definition loop_text :: "go_int \<Rightarrow> go_int \<Rightarrow> string" where
  "loop_text u w = spec_pad (nat (sint w)) (spec_digits (unat u))"

subsection \<open>The header, as the specification words it\<close>

text \<open>
  The prefix in angle brackets; the date as year, month and day with four, two and two
  digits; the clock as hour, minute and second with two digits each, then the microseconds
  with six digits when their flag is set; the bracketed severity tag; the file, the line
  without padding, and the separators. Level and location are under the test of the three
  time flags, as step 2 of the specification's header formatter has it.
\<close>

definition spec_prefix :: "string \<Rightarrow> string" where
  "spec_prefix p = (if p \<noteq> [] then ''<'' @ p @ ''>'' else [])"

definition spec_date :: "gotime \<Rightarrow> string" where
  "spec_date t =
     spec_pad 4 (spec_decimal (unat (Year t))) @ ''/'' @
     spec_pad 2 (spec_decimal (unat (Month t))) @ ''/'' @
     spec_pad 2 (spec_decimal (unat (Day t))) @ '' ''"

definition spec_micros :: "gotime \<Rightarrow> go_int" where
  "spec_micros t = word_of_int (sint (Nanosecond t) sdiv 1000)"

definition spec_clock :: "bool \<Rightarrow> gotime \<Rightarrow> string" where
  "spec_clock micro t =
     spec_pad 2 (spec_decimal (unat (Hour t))) @ '':'' @
     spec_pad 2 (spec_decimal (unat (Minute t))) @ '':'' @
     spec_pad 2 (spec_decimal (unat (Second t))) @
     (if micro then ''.'' @ spec_pad 6 (spec_decimal (unat (spec_micros t))) else []) @ '' ''"

definition spec_stamp :: "go_int \<Rightarrow> gotime \<Rightarrow> string" where
  "spec_stamp fg t =
     (if fg AND BitDate \<noteq> 0 then spec_date t else []) @
     (if fg AND (BitTime OR BitMicroSeconds) \<noteq> 0
      then spec_clock (fg AND BitMicroSeconds \<noteq> 0) t else [])"

definition spec_level :: "go_int \<Rightarrow> go_int \<Rightarrow> string" where
  "spec_level fg level = (if fg AND BitLevel \<noteq> 0 then levels ! nat (sint level) else [])"

definition spec_location :: "go_int \<Rightarrow> string \<Rightarrow> go_int \<Rightarrow> string" where
  "spec_location fg fl line =
     (if fg AND (BitShortFile OR BitLongFile) \<noteq> 0
      then (if fg AND BitShortFile \<noteq> 0 then shortFile fl else fl) @ '':'' @
           spec_decimal (unat line) @ '': ''
      else [])"

definition spec_header :: "string \<Rightarrow> go_int \<Rightarrow> gotime \<Rightarrow> string \<Rightarrow> go_int \<Rightarrow> go_int \<Rightarrow> string" where
  "spec_header p fg t fl line level =
     spec_prefix p @
     (if fg AND (BitDate OR BitTime OR BitMicroSeconds) \<noteq> 0
      then spec_stamp fg t @ spec_level fg level @ spec_location fg fl line
      else [])"

subsection \<open>Vocabulary of the properties\<close>

text \<open>The line terminator that \<open>OutPut\<close> adds after the message \<open>s\<close>.\<close>

definition spec_terminator :: "string \<Rightarrow> string" where
  "spec_terminator s = (if s \<noteq> [] \<and> last s \<noteq> CHR 0x0A then [CHR 0x0A] else [])"

text \<open>
  The line of a call at severity \<open>level\<close> with message \<open>s\<close>: the header of the
  specification for the logger's prefix and flags, the clock and the caller, then the
  message, then the terminator.
\<close>

definition line_text :: "env \<Rightarrow> ZinxLoggerCore \<Rightarrow> go_int \<Rightarrow> string \<Rightarrow> string" where
  "line_text e log level s =
     spec_header (prefix log) (flag log) (now e) (fst (callerInfo e log))
       (snd (callerInfo e log)) level @ s @ spec_terminator s"

text \<open>
  A call is suppressed when it returns at once with the logger as it was and no system
  call made; it has emitted when its logger and system calls are those of \<open>OutPut\<close>, the
  last of them the write of the buffer to the sink. It has written its line when its
  logger is the one the rotator leaves with the line in the buffer, and its system calls
  are those of the rotator followed by one write of exactly the line to the sink.
\<close>

definition suppressed :: "ZinxLoggerCore \<Rightarrow> ZinxLoggerCore \<times> event list \<times> outcome \<Rightarrow> bool" where
  "suppressed log r = (r = (log, [], Returned))"

definition emitted ::
  "env \<Rightarrow> ZinxLoggerCore \<Rightarrow> go_int \<Rightarrow> string \<Rightarrow>
     ZinxLoggerCore \<times> event list \<times> outcome \<Rightarrow> bool" where
  "emitted e log level s r =
     (case OutPut e log level s of
        Inl _ \<Rightarrow> False
      | Inr (log', ev, _) \<Rightarrow>
          fst r = log' \<and> fst (snd r) = ev \<and> ev \<noteq> [] \<and>
          last ev = Write (out log') (buf log'))"

definition wrote_line ::
  "env \<Rightarrow> ZinxLoggerCore \<Rightarrow> go_int \<Rightarrow> string \<Rightarrow>
     ZinxLoggerCore \<times> event list \<times> outcome \<Rightarrow> bool" where
  "wrote_line e log level s r =
     (case updateOutputFile e (log\<lparr>buf := line_text e log level s\<rparr>) of
        (log', ev0) \<Rightarrow>
          fst r = log' \<and> buf log' = line_text e log level s \<and>
          fst (snd r) = ev0 @ [Write (out log') (line_text e log level s)])"

text \<open>
  The gate at severity \<open>level\<close>: the call is suppressed exactly when the isolation level
  is greater than the severity, and a call that is not suppressed has emitted and has
  written its line.
\<close>

definition gated :: "env \<Rightarrow> ZinxLoggerCore \<Rightarrow> go_int \<Rightarrow> string \<Rightarrow>
     ZinxLoggerCore \<times> event list \<times> outcome \<Rightarrow> bool" where
  "gated e log level s r =
     ((suppressed log r \<longleftrightarrow> sint (isolationLevel log) > sint level) \<and>
      (\<not> suppressed log r \<longrightarrow> emitted e log level s r \<and> wrote_line e log level s r))"

text \<open>The six severities in their order.\<close>

definition severities :: "go_int list" where
  "severities = [LogDebug, LogInfo, LogWarn, LogError, LogPanic, LogFatal]"

text \<open>The path of the day's file, \<open>newDailyFile\<close> in \<open>updateOutputFile\<close>.\<close>

definition dailyFile :: "env \<Rightarrow> ZinxLoggerCore \<Rightarrow> string" where
  "dailyFile e log = fileDir log @ ''/'' @ fileName log @ ''.'' @ nowStamp e"

subsection \<open>Example inputs\<close>

text \<open>
  A clock reading; surroundings in which no path exists yet and every call succeeds, and
  three variants that refuse the open, refuse the directory, or fail every write; loggers
  made with the default flags and with no time flag.
\<close>

definition t0 :: gotime where
  "t0 = \<lparr>Year = 2019, Month = 4, Day = 11, Hour = 11, Minute = 15, Second = 33,
         Nanosecond = 123123000\<rparr>"

definition env0 :: env where
  "env0 = \<lparr>now = t0, caller = Some (''/home/go/src/zinx/server.go'', 42),
           nowYearDay = 101, nowStamp = ''20190411'',
           stat = (\<lambda>_. Some ErrNotExist), mkdirAll = (\<lambda>_. None),
           openFile = (\<lambda>_ _. Inr 3), writeTo = (\<lambda>_ _. None)\<rparr>"

definition envOpenDenied :: env where
  "envOpenDenied = env0\<lparr>openFile := (\<lambda>_ _. Inl ErrPermission)\<rparr>"


definition log0 :: ZinxLoggerCore where
  "log0 = SetLogFile ''./log'' ''app.log'' (NewZinxLog Stderr ''SRV'' BitDefault)"

definition envWriteFails :: env where
  "envWriteFails = env0\<lparr>writeTo := (\<lambda>_ _. Some ErrOther)\<rparr>"

definition logNoTime :: ZinxLoggerCore where
  "logNoTime = NewZinxLog Stderr ''SRV'' (BitLevel OR BitShortFile OR BitLongFile)"

text \<open>The logger \<open>log0\<close> after a rotation on day 101 that bound file 3.\<close>

definition logBound :: ZinxLoggerCore where
  "logBound = log0\<lparr>out := FileWriter (Some 3), file' := Some 3, lastWriteDate := 101\<rparr>"


section \<open>itoa writes the zero-padded decimal\<close>

lemma sint_pred:
  fixes w :: go_int
  assumes "- (2 ^ 63) < sint w"
  shows "sint (w - 1) = sint w - 1"
proof -
  have "sint w < 2 ^ 63" using sint_lt [of w] by simp
  then show ?thesis using assms
    by (simp add: sint_word_ariths signed_take_bit_int_eq_self)
qed

lemma spec_digits_0 [simp]: "spec_digits 0 = []"
  by (simp add: spec_digits.simps)

lemma char_of_48: "char_of (48 :: nat) = CHR ''0''"
  by (simp add: char_of_eq_iff)

lemma digit_byte_mod: "digit_byte (u mod 10) = char_of (48 + unat u mod 10)"
proof -
  have "unat (10 :: go_int) = 10" by simp
  then have "unat (u mod 10) = unat u mod 10" by (simp add: unat_mod)
  then show ?thesis by (simp add: digit_byte_def add.commute)
qed

lemma loop_text_step:
  fixes u w :: go_int
  assumes c: "0 < u \<or> 0 < sint w" and lo: "- (2 ^ 63) < sint w"
  shows "loop_text u w = loop_text (u div 10) (w - 1) @ [digit_byte (u mod 10)]"
proof (cases "u = 0")
  case True
  with c have w: "0 < sint w" by simp
  have "nat (sint w) = Suc (nat (sint w - 1))" using w by simp
  then show ?thesis using True lo
    by (simp add: loop_text_def spec_pad_def sint_pred digit_byte_def char_of_48
        replicate_append_same)
next
  case False
  then have n: "unat u \<noteq> 0" by (simp add: unat_eq_0)
  have sd: "spec_digits (unat u) = spec_digits (unat u div 10) @ [char_of (48 + unat u mod 10)]"
    using n by (subst spec_digits.simps) simp
  show ?thesis using lo
    by (simp add: loop_text_def spec_pad_def sint_pred sd unat_div digit_byte_mod nat_diff_distrib')
qed

lemma drop_pred_update:
  assumes "0 < bp" "bp \<le> length b"
  shows "drop (bp - 1) (b[bp - 1 := d]) = d # drop bp b"
proof -
  have "bp - 1 < length (b[bp - 1 := d])" using assms by simp
  then have "drop (bp - 1) (b[bp - 1 := d]) =
      (b[bp - 1 := d]) ! (bp - 1) # drop (Suc (bp - 1)) (b[bp - 1 := d])"
    by (rule Cons_nth_drop_Suc [symmetric])
  then show ?thesis using assms by simp
qed

text \<open>
  The loop, started with room for its text and a width that cannot wrap around, ends
  without a panic, and the bytes from the final position on are its text followed by what
  was there before.
\<close>

lemma itoa_loop_text:
  "bp \<le> length b \<Longrightarrow> length (loop_text u w) \<le> bp \<Longrightarrow> - (2 ^ 63) + int bp < sint w \<Longrightarrow>
   \<exists>b'. itoa_loop u w bp b = Inr (bp - length (loop_text u w), b') \<and>
        drop (bp - length (loop_text u w)) b' = loop_text u w @ drop bp b"
proof (induction u w bp b rule: itoa_loop.induct)
  case (1 u wID bp b)
  show ?case
  proof (cases "0 < u \<or> 0 < sint wID")
    case False
    then have "u = 0" "sint wID \<le> 0" by (auto simp: word_greater_zero_iff)
    then have "loop_text u wID = []"
      by (simp add: loop_text_def spec_pad_def)
    then show ?thesis using False by (simp add: itoa_loop.simps [of u wID])
  next
    case True
    have lo: "- (2 ^ 63) < sint wID" using "1.prems"(3) by simp
    have st: "loop_text u wID = loop_text (u div 10) (wID - 1) @ [digit_byte (u mod 10)]"
      using loop_text_step [OF True lo] .
    then have len: "length (loop_text u wID) = Suc (length (loop_text (u div 10) (wID - 1)))"
      by simp
    with "1.prems"(2) have bp: "bp \<noteq> 0" by auto
    have "\<exists>b'. itoa_loop (u div 10) (wID - 1) (bp - 1) (b[bp - 1 := digit_byte (u mod 10)]) =
            Inr (bp - 1 - length (loop_text (u div 10) (wID - 1)), b') \<and>
          drop (bp - 1 - length (loop_text (u div 10) (wID - 1))) b' =
            loop_text (u div 10) (wID - 1) @ drop (bp - 1) (b[bp - 1 := digit_byte (u mod 10)])"
      using "1.prems" bp len lo
      by (intro "1.IH" [OF True bp]) (auto simp: sint_pred)
    then obtain b' where
      r: "itoa_loop (u div 10) (wID - 1) (bp - 1) (b[bp - 1 := digit_byte (u mod 10)]) =
            Inr (bp - 1 - length (loop_text (u div 10) (wID - 1)), b')"
      and d: "drop (bp - 1 - length (loop_text (u div 10) (wID - 1))) b' =
            loop_text (u div 10) (wID - 1) @ drop (bp - 1) (b[bp - 1 := digit_byte (u mod 10)])"
      by blast
    have "drop (bp - 1) (b[bp - 1 := digit_byte (u mod 10)]) = digit_byte (u mod 10) # drop bp b"
      using bp "1.prems"(1) by (intro drop_pred_update) auto
    with d st len r True bp show ?thesis
      by (simp add: itoa_loop.simps [of u wID])
  qed
qed

lemma spec_digits_length: "n < 10 ^ k \<Longrightarrow> length (spec_digits n) \<le> k"
proof (induction k arbitrary: n)
  case 0
  then show ?case by simp
next
  case (Suc k)
  show ?case
  proof (cases "n = 0")
    case True
    then show ?thesis by simp
  next
    case False
    have "n div 10 < 10 ^ k" using Suc.prems by (simp add: less_mult_imp_div_less mult.commute)
    then have "length (spec_digits (n div 10)) \<le> k" by (rule Suc.IH)
    then show ?thesis using False by (subst spec_digits.simps) simp
  qed
qed

lemma spec_digits_word_length: "length (spec_digits (unat (u :: go_int))) \<le> 20"
proof -
  have "unat u < 2 ^ 64" using unsigned_less [of u] by simp
  also have "\<dots> < (10::nat) ^ 20" by simp
  finally show ?thesis by (rule spec_digits_length)
qed

lemma itoa_padded:
  assumes lo: "- (2 ^ 63) + 32 < sint wID" and hi: "sint wID \<le> 32"
  shows "itoa bf i wID = Inr (bf @ spec_pad (nat (sint wID)) (spec_decimal (unat i)))"
proof (cases "i = 0 \<and> sint wID \<le> 1")
  case True
  then have "sint wID \<le> 1" by blast
  then have "nat (sint wID) - Suc 0 = 0" by linarith
  with True show ?thesis by (simp add: itoa_def spec_decimal_def spec_pad_def)
next
  case False
  have len: "length (loop_text i wID) \<le> 32"
    using hi spec_digits_word_length [of i] by (simp add: loop_text_def spec_pad_def)
  have "\<exists>b'. itoa_loop i wID 32 (replicate 32 (CHR 0x00)) =
            Inr (32 - length (loop_text i wID), b') \<and>
          drop (32 - length (loop_text i wID)) b' =
            loop_text i wID @ drop 32 (replicate 32 (CHR 0x00))"
    using len lo by (intro itoa_loop_text) auto
  then obtain b' where
    r: "itoa_loop i wID 32 (replicate 32 (CHR 0x00)) = Inr (32 - length (loop_text i wID), b')"
    and d: "drop (32 - length (loop_text i wID)) b' = loop_text i wID" by auto
  have "loop_text i wID = spec_pad (nat (sint wID)) (spec_decimal (unat i))"
  proof (cases "i = 0")
    case True
    with False have "1 < sint wID" by simp
    then have "nat (sint wID) = Suc (nat (sint wID) - 1)" by simp
    then have "replicate (nat (sint wID)) (CHR ''0'') =
        replicate (nat (sint wID) - 1) (CHR ''0'') @ ''0''"
      by (metis replicate_Suc replicate_append_same)
    then show ?thesis using True by (simp add: loop_text_def spec_pad_def spec_decimal_def)
  next
    case False
    then show ?thesis by (simp add: loop_text_def spec_decimal_def unat_eq_0)
  qed
  with r d False show ?thesis by (auto simp: itoa_def)
qed

text \<open>
  C7. For a width up to the 32 bytes of the array (and not so negative that decrementing it
  wraps around), \<open>itoa\<close> appends the decimal numeral of its unsigned argument, padded with
  zeros on the left to the width; zero is the numeral \<open>0\<close>. So 7 at width 2 is \<open>07\<close>, and
  0 at width 1, and at the width \<open>-1\<close> that stands for no fixed width, is \<open>0\<close> and not the
  empty text.
\<close>

theorem itoa_zero_padded:
  "(- (2 ^ 63) + 32 < sint wID \<and> sint wID \<le> 32 \<longrightarrow>
      itoa bf i wID = Inr (bf @ spec_pad (nat (sint wID)) (spec_decimal (unat i))))
   \<and> itoa bf 7 2 = Inr (bf @ ''07'')
   \<and> itoa bf 0 1 = Inr (bf @ ''0'')
   \<and> itoa bf 0 (- 1) = Inr (bf @ ''0'')"
proof -
  have a: "- (2 ^ 63) + 32 < sint wID \<and> sint wID \<le> 32 \<longrightarrow>
      itoa bf i wID = Inr (bf @ spec_pad (nat (sint wID)) (spec_decimal (unat i)))"
    by (simp add: itoa_padded)
  have "spec_pad 2 (spec_decimal 7) = ''07''" by code_simp
  moreover have "itoa bf 7 2 =
      Inr (bf @ spec_pad (nat (sint (2 :: go_int))) (spec_decimal (unat (7 :: go_int))))"
    by (rule itoa_padded) simp_all
  ultimately have b: "itoa bf 7 2 = Inr (bf @ ''07'')" by simp
  have c: "itoa bf 0 1 = Inr (bf @ ''0'')" by (simp add: itoa_def)
  have d: "itoa bf 0 (- 1) = Inr (bf @ ''0'')" by (simp add: itoa_def)
  from a b c d show ?thesis by blast
qed

theorem itoa_zero_padded_witness:
  "- (2 ^ 63) + 32 < sint (6 :: go_int) \<and> sint (6 :: go_int) \<le> 32
   \<and> itoa ''11:15:33.'' 1234 6 = Inr ''11:15:33.001234''
   \<and> spec_pad 6 (spec_decimal 1234) = ''001234''"
proof -
  have s: "spec_pad 6 (spec_decimal 1234) = ''001234''" by code_simp
  have "itoa ''11:15:33.'' 1234 6 =
      Inr (''11:15:33.'' @ spec_pad (nat (sint (6 :: go_int))) (spec_decimal (unat (1234 :: go_int))))"
    using itoa_zero_padded [of 6 "''11:15:33.''" 1234] by simp
  with s show ?thesis by simp
qed

section \<open>The scan for the short file name\<close>

lemma shortFile_loop_none:
  "(\<And>j. 0 < j \<Longrightarrow> j \<le> i \<Longrightarrow> fl ! nat j \<noteq> CHR ''/'') \<Longrightarrow> shortFile_loop fl i = fl"
proof (induction fl i rule: shortFile_loop.induct)
  case (1 fl i)
  show ?case
  proof (cases "0 < i")
    case False
    then show ?thesis by (simp add: shortFile_loop.simps [of fl i])
  next
    case True
    then have ne: "fl ! nat i \<noteq> CHR ''/''" using "1.prems" by simp
    have "shortFile_loop fl (i - 1) = fl"
      using True ne "1.prems" by (intro "1.IH") auto
    with True ne show ?thesis by (simp add: shortFile_loop.simps [of fl i])
  qed
qed

lemma shortFile_loop_last:
  "0 < j \<Longrightarrow> j \<le> i \<Longrightarrow> fl ! nat j = CHR ''/'' \<Longrightarrow>
   (\<And>k. j < k \<Longrightarrow> k \<le> i \<Longrightarrow> fl ! nat k \<noteq> CHR ''/'') \<Longrightarrow>
   shortFile_loop fl i = drop (nat j + 1) fl"
proof (induction fl i rule: shortFile_loop.induct)
  case (1 fl i)
  have pos: "0 < i" using "1.prems" by simp
  show ?case
  proof (cases "j = i")
    case True
    with pos "1.prems"(3) show ?thesis by (simp add: shortFile_loop.simps [of fl i])
  next
    case False
    then have lt: "j < i" using "1.prems"(2) by simp
    then have ne: "fl ! nat i \<noteq> CHR ''/''" using "1.prems"(4) by simp
    have "shortFile_loop fl (i - 1) = drop (nat j + 1) fl"
      using pos ne lt "1.prems" by (intro "1.IH") auto
    with pos ne show ?thesis by (simp add: shortFile_loop.simps [of fl i])
  qed
qed

lemma shortFile_unchanged:
  assumes "\<And>j. 1 \<le> j \<Longrightarrow> j < length fl \<Longrightarrow> fl ! j \<noteq> CHR ''/''"
  shows "shortFile fl = fl"
  unfolding shortFile_def
proof (rule shortFile_loop_none)
  fix j :: int assume "0 < j" "j \<le> int (length fl) - 1"
  then have "1 \<le> nat j" "nat j < length fl" by auto
  then show "fl ! nat j \<noteq> CHR ''/''" by (rule assms)
qed

lemma shortFile_strip:
  assumes "1 \<le> j" "j < length fl" "fl ! j = CHR ''/''"
    and "\<And>k. j < k \<Longrightarrow> k < length fl \<Longrightarrow> fl ! k \<noteq> CHR ''/''"
  shows "shortFile fl = drop (j + 1) fl"
proof -
  have "shortFile_loop fl (int (length fl) - 1) = drop (nat (int j) + 1) fl"
  proof (rule shortFile_loop_last)
    show "0 < int j" using assms(1) by simp
    show "int j \<le> int (length fl) - 1" using assms(2) by simp
    show "fl ! nat (int j) = CHR ''/''" using assms(3) by simp
    fix k :: int assume "int j < k" "k \<le> int (length fl) - 1"
    then have "j < nat k" "nat k < length fl" by auto
    then show "fl ! nat k \<noteq> CHR ''/''" by (rule assms(4))
  qed
  then show ?thesis by (simp add: shortFile_def)
qed

lemma and_or_nonzero:
  fixes fg :: go_int
  shows "fg AND (a OR b) \<noteq> 0 \<longleftrightarrow> fg AND a \<noteq> 0 \<or> fg AND b \<noteq> 0"
  by (simp add: bit.conj_disj_distrib or_eq_0_iff)

lemma itoa_line: "itoa bf line (- 1) = Inr (bf @ spec_decimal (unat line))"
proof -
  have "itoa bf line (- 1) = Inr (bf @ spec_pad (nat (sint (- 1 :: go_int))) (spec_decimal (unat line)))"
    by (rule itoa_padded) simp_all
  then show ?thesis by (simp add: spec_pad_def)
qed

lemma headerFile_text:
  "headerFile fg fl line b =
     Inr (if fg AND (BitShortFile OR BitLongFile) \<noteq> 0
          then b @ (if fg AND BitShortFile \<noteq> 0 then shortFile fl else fl) @ '':'' @
               spec_decimal (unat line) @ '': ''
          else b)"
  by (simp add: headerFile_def pbind_def itoa_line Let_def)

section \<open>formatHeader writes the header of the specification\<close>

lemma itoa_w4: "itoa bf i 4 = Inr (bf @ spec_pad 4 (spec_decimal (unat i)))"
  using itoa_padded [of 4 bf i] by simp

lemma itoa_w2: "itoa bf i 2 = Inr (bf @ spec_pad 2 (spec_decimal (unat i)))"
  using itoa_padded [of 2 bf i] by simp

lemma itoa_w6: "itoa bf i 6 = Inr (bf @ spec_pad 6 (spec_decimal (unat i)))"
  using itoa_padded [of 6 bf i] by simp

lemma pbind_Inr [simp]: "pbind (Inr x) f = f x"
  by (simp add: pbind_def)

lemma pbind_Inl [simp]: "pbind (Inl p) f = Inl p"
  by (simp add: pbind_def)

lemma headerDate_text:
  "headerDate fg t b = Inr (b @ (if fg AND BitDate \<noteq> 0 then spec_date t else []))"
  by (simp add: headerDate_def itoa_w4 itoa_w2 spec_date_def)

lemma headerClock_text:
  "headerClock fg t b =
     Inr (b @ (if fg AND (BitTime OR BitMicroSeconds) \<noteq> 0
               then spec_clock (fg AND BitMicroSeconds \<noteq> 0) t else []))"
  by (simp add: headerClock_def itoa_w2 itoa_w6 spec_clock_def spec_micros_def)

lemma headerLevel_text:
  "0 \<le> sint level \<Longrightarrow> sint level < 6 \<Longrightarrow> headerLevel fg level b = Inr (b @ spec_level fg level)"
  by (simp add: headerLevel_def spec_level_def levels_def)

lemma headerLevel_off:
  "fg AND BitLevel = 0 \<Longrightarrow> headerLevel fg level b = Inr (b @ spec_level fg level)"
  by (simp add: headerLevel_def spec_level_def)

lemma headerFile_location: "headerFile fg fl line b = Inr (b @ spec_location fg fl line)"
  by (simp add: headerFile_text spec_location_def)

lemma formatHeader_spec:
  assumes "0 \<le> sint level \<and> sint level < 6 \<or> flag log AND BitLevel = 0"
  shows "formatHeader log t fl line level =
     Inr (log\<lparr>buf := buf log @ spec_header (prefix log) (flag log) t fl line level\<rparr>)"
proof -
  have lv: "headerLevel (flag log) level b = Inr (b @ spec_level (flag log) level)" for b
    using assms headerLevel_text headerLevel_off by blast
  show ?thesis
    by (simp add: formatHeader_def Let_def headerDate_text headerClock_text lv
        headerFile_location spec_header_def spec_prefix_def spec_stamp_def)
qed

lemma formatHeader_quiet:
  assumes "flag log AND (BitDate OR BitTime OR BitMicroSeconds) = 0"
  shows "formatHeader log t fl line level = Inr (log\<lparr>buf := buf log @ spec_prefix (prefix log)\<rparr>)"
  using assms by (simp add: formatHeader_def Let_def spec_prefix_def)

lemma formatHeader_panic:
  "formatHeader log t fl line level = Inl p \<longleftrightarrow>
     p = IndexOutOfRange \<and> flag log AND (BitDate OR BitTime OR BitMicroSeconds) \<noteq> 0 \<and>
     flag log AND BitLevel \<noteq> 0 \<and> \<not> (0 \<le> sint level \<and> sint level < 6)"
proof (cases "0 \<le> sint level \<and> sint level < 6 \<or> flag log AND BitLevel = 0")
  case True
  then show ?thesis by (auto simp: formatHeader_spec)
next
  case False
  then have "headerLevel (flag log) level b = Inl IndexOutOfRange" for b
    by (auto simp: headerLevel_def levels_def)
  then show ?thesis using False
    by (auto simp: formatHeader_def Let_def headerDate_text headerClock_text)
qed

section \<open>Claims about the header\<close>

text \<open>
  C9. The scan for a path separator runs over the indices from the last down to 1 and never
  looks at index 0. So a path whose only \<open>/\<close> is its first character is rendered as it
  is, leading slash included, also in the file field of the header; the short name differs
  from the path only if a separator stands at index 1 or later, and then everything up to
  the last such separator is cut off.
\<close>

theorem shortFile_scan_stops_before_index_0:
  "(fl = CHR ''/'' # rest \<and> CHR ''/'' \<notin> set rest \<longrightarrow>
      shortFile fl = fl \<and>
      (fg AND BitShortFile \<noteq> 0 \<longrightarrow>
         headerFile fg fl line b = Inr (b @ fl @ '':'' @ spec_decimal (unat line) @ '': '')))
   \<and> (shortFile fl \<noteq> fl \<longrightarrow> (\<exists>j. 1 \<le> j \<and> j < length fl \<and> fl ! j = CHR ''/''))
   \<and> (1 \<le> j \<and> j < length fl \<and> fl ! j = CHR ''/'' \<and>
        (\<forall>k. j < k \<and> k < length fl \<longrightarrow> fl ! k \<noteq> CHR ''/'') \<longrightarrow>
      shortFile fl = drop (j + 1) fl)"
proof (intro conjI impI)
  assume a: "fl = CHR ''/'' # rest \<and> CHR ''/'' \<notin> set rest"
  show same: "shortFile fl = fl"
  proof (rule shortFile_unchanged)
    fix i assume "1 \<le> i" "i < length fl"
    then have "fl ! i = rest ! (i - 1)" "i - 1 < length rest" using a by (auto simp: nth_Cons')
    then have "fl ! i \<in> set rest" by simp
    with a show "fl ! i \<noteq> CHR ''/''" by auto
  qed
  assume "fg AND BitShortFile \<noteq> 0"
  then show "headerFile fg fl line b = Inr (b @ fl @ '':'' @ spec_decimal (unat line) @ '': '')"
    using same by (simp add: headerFile_text and_or_nonzero)
next
  assume "shortFile fl \<noteq> fl"
  then show "\<exists>j. 1 \<le> j \<and> j < length fl \<and> fl ! j = CHR ''/''"
    using shortFile_unchanged [of fl] by blast
next
  assume "1 \<le> j \<and> j < length fl \<and> fl ! j = CHR ''/'' \<and>
        (\<forall>k. j < k \<and> k < length fl \<longrightarrow> fl ! k \<noteq> CHR ''/'')"
  then show "shortFile fl = drop (j + 1) fl"
    by (intro shortFile_strip) auto
qed

lemma BitDefault_short: "BitDefault AND BitShortFile \<noteq> 0"
  by (simp add: BitDefault_def BitShortFile_def BitLevel_def BitStdFlag_def BitDate_def BitTime_def)

theorem shortFile_scan_stops_before_index_0_witness:
  "shortFile ''/main.go'' = ''/main.go''
   \<and> headerFile BitDefault ''/main.go'' 12 ''[INFO]'' = Inr ''[INFO]/main.go:12: ''
   \<and> shortFile ''/a/b/c.go'' \<noteq> ''/a/b/c.go''
   \<and> (\<exists>j. 1 \<le> j \<and> j < length ''/a/b/c.go'' \<and> ''/a/b/c.go'' ! j = CHR ''/'')
   \<and> (4::nat) < length ''/a/b/c.go'' \<and> ''/a/b/c.go'' ! 4 = CHR ''/''
   \<and> shortFile ''/a/b/c.go'' = ''c.go''"
proof -
  have h1: "''/main.go'' = CHR ''/'' # ''main.go'' \<and> CHR ''/'' \<notin> set ''main.go''" by simp
  have d: "spec_decimal (unat (12 :: go_int)) = ''12''" by code_simp
  have h3: "(1::nat) \<le> 4 \<and> 4 < length ''/a/b/c.go'' \<and> ''/a/b/c.go'' ! 4 = CHR ''/'' \<and>
        (\<forall>k. 4 < k \<and> k < length ''/a/b/c.go'' \<longrightarrow> ''/a/b/c.go'' ! k \<noteq> CHR ''/'')"
  proof (intro conjI allI impI)
    fix k :: nat assume "4 < k \<and> k < length ''/a/b/c.go''"
    then have "k = 5 \<or> k = 6 \<or> k = 7 \<or> k = 8" by auto
    then show "''/a/b/c.go'' ! k \<noteq> CHR ''/''" by auto
  qed simp_all
  note T1 = shortFile_scan_stops_before_index_0 [of "''/main.go''" "''main.go''" BitDefault 12 "''[INFO]''" 4]
  note T2 = shortFile_scan_stops_before_index_0 [of "''/a/b/c.go''" "''a/b/c.go''" BitDefault 12 "''[INFO]''" 4]
  have a: "shortFile ''/main.go'' = ''/main.go''" using T1 h1 by blast
  have b: "headerFile BitDefault ''/main.go'' 12 ''[INFO]'' = Inr ''[INFO]/main.go:12: ''"
    using T1 h1 BitDefault_short d by simp
  have c: "shortFile ''/a/b/c.go'' = ''c.go''" using T2 h3 by simp
  then have n: "shortFile ''/a/b/c.go'' \<noteq> ''/a/b/c.go''" by simp
  with T2 have e: "\<exists>j. 1 \<le> j \<and> j < length ''/a/b/c.go'' \<and> ''/a/b/c.go'' ! j = CHR ''/''"
    by blast
  from a b c n e h3 show ?thesis by blast
qed

text \<open>
  C5. When none of the date, time and microseconds bits is set, \<open>formatHeader\<close> appends
  the bracketed prefix only: neither the severity tag nor the file and line, whatever the
  Level, ShortFile and LongFile bits are. When one of the three bits is set (and the level
  indexes the table), the time stamp is followed by the tag if the Level bit is set and by
  the file field if the ShortFile or LongFile bit is set.
\<close>

theorem formatHeader_level_and_file_need_time_bits:
  "(flag log AND (BitDate OR BitTime OR BitMicroSeconds) = 0 \<longrightarrow>
      formatHeader log t fl line level =
        Inr (log\<lparr>buf := buf log @ spec_prefix (prefix log)\<rparr>))
   \<and> (flag log AND (BitDate OR BitTime OR BitMicroSeconds) \<noteq> 0 \<and>
       0 \<le> sint level \<and> sint level < 6 \<longrightarrow>
      formatHeader log t fl line level =
        Inr (log\<lparr>buf := buf log @ spec_prefix (prefix log) @ spec_stamp (flag log) t @
               (if flag log AND BitLevel \<noteq> 0 then levels ! nat (sint level) else []) @
               (if flag log AND (BitShortFile OR BitLongFile) \<noteq> 0
                then (if flag log AND BitShortFile \<noteq> 0 then shortFile fl else fl) @ '':'' @
                     spec_decimal (unat line) @ '': ''
                else [])\<rparr>))"
  by (simp add: formatHeader_quiet formatHeader_spec spec_header_def spec_level_def
      spec_location_def)

theorem formatHeader_level_and_file_need_time_bits_witness:
  "flag logNoTime AND (BitDate OR BitTime OR BitMicroSeconds) = 0
   \<and> flag logNoTime AND BitLevel \<noteq> 0 \<and> flag logNoTime AND BitShortFile \<noteq> 0
   \<and> formatHeader logNoTime t0 ''/home/go/src/zinx/server.go'' 42 LogError =
       Inr (logNoTime\<lparr>buf := ''<SRV>''\<rparr>)
   \<and> flag log0 AND (BitDate OR BitTime OR BitMicroSeconds) \<noteq> 0
   \<and> 0 \<le> sint LogError \<and> sint LogError < 6
   \<and> formatHeader log0 t0 ''/home/go/src/zinx/server.go'' 42 LogError =
       Inr (log0\<lparr>buf := ''<SRV>2019/04/11 11:15:33 [ERROR]server.go:42: ''\<rparr>)"
proof -
  have f0: "flag logNoTime = 56" "prefix logNoTime = ''SRV''" "buf logNoTime = []"
    by (simp_all add: logNoTime_def NewZinxLog_def BitLevel_def BitShortFile_def BitLongFile_def)
  have f1: "flag log0 = 51" "prefix log0 = ''SRV''" "buf log0 = []"
    by (simp_all add: log0_def SetLogFile_def NewZinxLog_def BitDefault_def BitLevel_def
        BitShortFile_def BitStdFlag_def BitDate_def BitTime_def)
  have bits: "BitDate = 1" "BitTime = 2" "BitMicroSeconds = 4" "BitLongFile = 8"
    "BitShortFile = 16" "BitLevel = 32"
    by (simp_all add: BitDate_def BitTime_def BitMicroSeconds_def BitLevel_def BitShortFile_def
        BitLongFile_def)
  have h0: "flag logNoTime AND (BitDate OR BitTime OR BitMicroSeconds) = 0"
    by (simp add: f0 bits)
  have h1: "flag log0 AND (BitDate OR BitTime OR BitMicroSeconds) \<noteq> 0 \<and>
      0 \<le> sint LogError \<and> sint LogError < 6"
    by (simp add: f1 bits LogError_def)
  have s: "spec_stamp 51 t0 = ''2019/04/11 11:15:33 ''" by code_simp
  have sf: "shortFile ''/home/go/src/zinx/server.go'' = ''server.go''" by code_simp
  have d: "spec_decimal 42 = ''42''" by code_simp
  have lv: "levels ! nat (sint LogError) = ''[ERROR]''" by (simp add: levels_def LogError_def)
  note T0 = formatHeader_level_and_file_need_time_bits
    [of logNoTime t0 "''/home/go/src/zinx/server.go''" 42 LogError]
  note T1 = formatHeader_level_and_file_need_time_bits
    [of log0 t0 "''/home/go/src/zinx/server.go''" 42 LogError]
  have a: "formatHeader logNoTime t0 ''/home/go/src/zinx/server.go'' 42 LogError =
       Inr (logNoTime\<lparr>buf := ''<SRV>''\<rparr>)"
    using T0 h0 by (simp add: f0 spec_prefix_def)
  have "formatHeader log0 t0 ''/home/go/src/zinx/server.go'' 42 LogError =
        Inr (log0\<lparr>buf := buf log0 @ spec_prefix (prefix log0) @ spec_stamp (flag log0) t0 @
               (if flag log0 AND BitLevel \<noteq> 0 then levels ! nat (sint LogError) else []) @
               (if flag log0 AND (BitShortFile OR BitLongFile) \<noteq> 0
                then (if flag log0 AND BitShortFile \<noteq> 0 then shortFile ''/home/go/src/zinx/server.go'' else ''/home/go/src/zinx/server.go'') @ '':'' @
                     spec_decimal (unat (42 :: go_int)) @ '': ''
                else [])\<rparr>)"
    using T1 h1 by blast
  then have b: "formatHeader log0 t0 ''/home/go/src/zinx/server.go'' 42 LogError =
       Inr (log0\<lparr>buf := ''<SRV>2019/04/11 11:15:33 [ERROR]server.go:42: ''\<rparr>)"
    by (simp add: f1 bits s sf d lv spec_prefix_def)
  have c: "flag logNoTime AND BitLevel \<noteq> 0 \<and> flag logNoTime AND BitShortFile \<noteq> 0"
    by (simp add: f0 bits)
  from a b c h0 h1 show ?thesis by blast
qed

section \<open>The file rotator and OutPut\<close>

lemma closeFile_fields:
  "buf (fst (closeFile log)) = buf log" "lastWriteDate (fst (closeFile log)) = lastWriteDate log"
  by (simp_all add: closeFile_def split: option.splits)

lemma updateOutputFile_fast:
  "lastWriteDate log = nowYearDay e \<Longrightarrow> file' log \<noteq> None \<Longrightarrow> updateOutputFile e log = (log, [])"
  by (simp add: updateOutputFile_def)

lemma updateOutputFile_slow:
  assumes "\<not> (lastWriteDate log = nowYearDay e \<and> file' log \<noteq> None)"
  shows "\<exists>ev. updateOutputFile e log =
     (log\<lparr>lastWriteDate := nowYearDay e,
          file' := (case openFile e (dailyFile e log) (IsNotExist (stat e (dailyFile e log))) of
                     Inl _ \<Rightarrow> None | Inr f \<Rightarrow> Some f),
          out := FileWriter (case openFile e (dailyFile e log) (IsNotExist (stat e (dailyFile e log))) of
                     Inl _ \<Rightarrow> None | Inr f \<Rightarrow> Some f)\<rparr>, ev)"
  using assms
  by (auto simp: updateOutputFile_def Let_def dailyFile_def checkFileExist_def closeFile_def
      split: prod.splits option.splits)

lemma updateOutputFile_buf: "buf (fst (updateOutputFile e log)) = buf log"
proof (cases "lastWriteDate log = nowYearDay e \<and> file' log \<noteq> None")
  case True
  then show ?thesis by (simp add: updateOutputFile_fast)
next
  case False
  from updateOutputFile_slow [OF this] show ?thesis by auto
qed

lemma updateOutputFile_day: "lastWriteDate (fst (updateOutputFile e log)) = nowYearDay e"
proof (cases "lastWriteDate log = nowYearDay e \<and> file' log \<noteq> None")
  case True
  then show ?thesis by (simp add: updateOutputFile_fast)
next
  case False
  from updateOutputFile_slow [OF this] show ?thesis by auto
qed

lemma formatHeader_Inr:
  assumes "formatHeader log t fl line level = Inr h"
  shows "h = log\<lparr>buf := buf log @ spec_header (prefix log) (flag log) t fl line level\<rparr>"
proof (cases "flag log AND (BitDate OR BitTime OR BitMicroSeconds) = 0")
  case True
  then show ?thesis using assms by (simp add: formatHeader_quiet spec_header_def)
next
  case False
  have "\<not> (flag log AND BitLevel \<noteq> 0 \<and> \<not> (0 \<le> sint level \<and> sint level < 6))"
    using formatHeader_panic [of log t fl line level IndexOutOfRange] False assms by auto
  then have "0 \<le> sint level \<and> sint level < 6 \<or> flag log AND BitLevel = 0" by blast
  from formatHeader_spec [OF this] assms show ?thesis by simp
qed

lemma terminator_nth:
  "(if 0 < length s \<and> s ! (length s - 1) \<noteq> CHR 0x0A then b @ s @ [CHR 0x0A] else b @ s) =
   b @ s @ spec_terminator s"
  by (cases "s = []") (simp_all add: spec_terminator_def last_conv_nth)

lemma OutPut_Inr:
  assumes "OutPut e log level s = Inr (log', ev, err)"
  shows "\<exists>ev0. ev = ev0 @ [Write (out log') (buf log')] \<and>
           updateOutputFile e (log\<lparr>buf := buf log'\<rparr>) = (log', ev0) \<and>
           err = writeOut e (out log') (buf log') \<and>
           buf log' = spec_header (prefix log) (flag log) (now e) (fst (callerInfo e log))
                        (snd (callerInfo e log)) level @ s @ spec_terminator s"
proof -
  obtain fl line where ci: "callerInfo e log = (fl, line)" by (cases "callerInfo e log")
  obtain h where fh: "formatHeader (log\<lparr>buf := []\<rparr>) (now e) fl line level = Inr h"
    using assms ci by (cases "formatHeader (log\<lparr>buf := []\<rparr>) (now e) fl line level")
      (simp_all add: OutPut_def)
  from formatHeader_Inr [OF fh]
  have h: "h = log\<lparr>buf := spec_header (prefix log) (flag log) (now e) fl line level\<rparr>"
    by simp
  define wr where "wr = spec_header (prefix log) (flag log) (now e) fl line level @ s @ spec_terminator s"
  obtain l2 ev0 where u: "updateOutputFile e (log\<lparr>buf := wr\<rparr>) = (l2, ev0)"
    by (cases "updateOutputFile e (log\<lparr>buf := wr\<rparr>)")
  have b2: "buf l2 = wr" using updateOutputFile_buf [of e "log\<lparr>buf := wr\<rparr>"] u by simp
  have "OutPut e log level s =
      (case updateOutputFile e (log\<lparr>buf := wr\<rparr>) of
         (l, ev) \<Rightarrow> Inr (l, ev @ [Write (out l) (buf l)], writeOut e (out l) (buf l)))"
    by (cases "s = []"; cases "last s = CHR 0x0A")
      (simp_all add: OutPut_def ci fh h Let_def wr_def spec_terminator_def last_conv_nth)
  then have "OutPut e log level s =
      Inr (l2, ev0 @ [Write (out l2) (buf l2)], writeOut e (out l2) (buf l2))"
    using u by simp
  with assms have "log' = l2" "ev = ev0 @ [Write (out l2) (buf l2)]" "err = writeOut e (out l2) (buf l2)"
    by auto
  then show ?thesis using u b2 ci by (simp add: wr_def)
qed

lemma OutPut_total:
  assumes "0 \<le> sint level \<and> sint level < 6"
  shows "\<exists>log' ev err. OutPut e log level s = Inr (log', ev, err)"
proof -
  obtain fl line where ci: "callerInfo e log = (fl, line)" by (cases "callerInfo e log")
  have "formatHeader (log\<lparr>buf := []\<rparr>) (now e) fl line level =
      Inr (log\<lparr>buf := spec_header (prefix log) (flag log) (now e) fl line level\<rparr>)"
    using formatHeader_spec [of level "log\<lparr>buf := []\<rparr>"] assms by simp
  then show ?thesis
    by (simp add: OutPut_def ci Let_def split: prod.splits)
qed

lemma emit_then_emitted:
  assumes "0 \<le> sint level \<and> sint level < 6"
  shows "emitted e log level s (emit_then e log level s after) \<and>
         snd (snd (emit_then e log level s after)) = after \<and>
         fst (snd (emit_then e log level s after)) \<noteq> []"
proof -
  from OutPut_total [OF assms] obtain log' ev err where
    o: "OutPut e log level s = Inr (log', ev, err)" by blast
  from OutPut_Inr [OF o] obtain ev0 where "ev = ev0 @ [Write (out log') (buf log')]" by blast
  with o show ?thesis by (simp add: emitted_def emit_then_def)
qed

lemma emit_then_wrote:
  assumes "0 \<le> sint level \<and> sint level < 6"
  shows "wrote_line e log level s (emit_then e log level s after)"
proof -
  from OutPut_total [OF assms] obtain log' ev err where
    o: "OutPut e log level s = Inr (log', ev, err)" by blast
  from OutPut_Inr [OF o] obtain ev0 where
    ev: "ev = ev0 @ [Write (out log') (buf log')]"
    and u: "updateOutputFile e (log\<lparr>buf := buf log'\<rparr>) = (log', ev0)"
    and b: "buf log' = line_text e log level s"
    by (auto simp: line_text_def)
  from u b have "updateOutputFile e (log\<lparr>buf := line_text e log level s\<rparr>) = (log', ev0)"
    by simp
  with o ev b show ?thesis by (simp add: wrote_line_def emit_then_def)
qed

lemma OutPut_panic:
  "OutPut e log level s = Inl p \<longleftrightarrow>
     p = IndexOutOfRange \<and> flag log AND (BitDate OR BitTime OR BitMicroSeconds) \<noteq> 0 \<and>
     flag log AND BitLevel \<noteq> 0 \<and> \<not> (0 \<le> sint level \<and> sint level < 6)"
proof -
  obtain fl line where ci: "callerInfo e log = (fl, line)" by (cases "callerInfo e log")
  have "OutPut e log level s = Inl p \<longleftrightarrow>
      formatHeader (log\<lparr>buf := []\<rparr>) (now e) fl line level = Inl p"
    by (cases "formatHeader (log\<lparr>buf := []\<rparr>) (now e) fl line level")
      (simp_all add: OutPut_def ci Let_def split: prod.splits)
  then show ?thesis by (simp add: formatHeader_panic)
qed

lemma sint_levels:
  "sint LogDebug = 0" "sint LogInfo = 1" "sint LogWarn = 2" "sint LogError = 3"
  "sint LogPanic = 4" "sint LogFatal = 5"
  by (simp_all add: LogDebug_def LogInfo_def LogWarn_def LogError_def LogPanic_def LogFatal_def)

lemma gate:
  assumes lv: "0 \<le> sint level \<and> sint level < 6"
    and r: "r = (if verifyLogIsolation log level then (log, [], Returned)
                 else emit_then e log level s after)"
  shows "(suppressed log r \<longleftrightarrow> sint level < sint (isolationLevel log)) \<and>
         (\<not> suppressed log r \<longrightarrow> emitted e log level s r \<and> snd (snd r) = after)"
proof (cases "verifyLogIsolation log level")
  case True
  then show ?thesis using r by (simp add: suppressed_def verifyLogIsolation_def split: if_splits)
next
  case False
  have "fst (snd (emit_then e log level s after)) \<noteq> []"
    using emit_then_emitted [OF lv] by blast
  then have "emit_then e log level s after \<noteq> (log, [], Returned)" by auto
  then show ?thesis using False r emit_then_emitted [OF lv, of e log s after]
    by (simp add: suppressed_def verifyLogIsolation_def split: if_splits)
qed

section \<open>Claims about the severity methods\<close>

lemma gated_method:
  assumes "0 \<le> sint level \<and> sint level < 6"
  shows "gated e log level s
     (if verifyLogIsolation log level then (log, [], Returned) else emit_then e log level s after)"
proof (cases "verifyLogIsolation log level")
  case True
  with gate [OF assms refl, of log e s after] show ?thesis
    by (simp add: gated_def suppressed_def)
next
  case False
  with gate [OF assms refl, of log e s after] emit_then_wrote [OF assms, of e log s after]
  show ?thesis by (simp add: gated_def)
qed

lemma level_ranges:
  "0 \<le> sint LogDebug \<and> sint LogDebug < 6" "0 \<le> sint LogInfo \<and> sint LogInfo < 6"
  "0 \<le> sint LogWarn \<and> sint LogWarn < 6" "0 \<le> sint LogError \<and> sint LogError < 6"
  "0 \<le> sint LogPanic \<and> sint LogPanic < 6" "0 \<le> sint LogFatal \<and> sint LogFatal < 6"
  by (simp_all add: sint_levels)

text \<open>
  C3. For each of the six severities, the formatted and the concatenating method are
  suppressed (the logger left as it was, no system call, plain return) if and only if the
  isolation level is greater than the severity. A call that is not suppressed has the
  logger and the system calls of \<open>OutPut\<close> at that severity, and it has formatted and
  emitted: the buffer holds the header for that severity, the message and the terminator,
  and after the system calls of the rotator exactly these bytes are written to the sink.
\<close>

theorem severity_gate:
  "gated e log LogDebug s (Debugf e log s) \<and> gated e log LogDebug (Sprintln v) (Debug e log v)
   \<and> gated e log LogInfo s (Infof e log s) \<and> gated e log LogInfo (Sprintln v) (Info e log v)
   \<and> gated e log LogWarn s (Warnf e log s) \<and> gated e log LogWarn (Sprintln v) (Warn e log v)
   \<and> gated e log LogError s (Errorf e log s) \<and> gated e log LogError (Sprintln v) (Error e log v)
   \<and> gated e log LogPanic s (Panicf e log s) \<and> gated e log LogPanic (Sprintln v) (Panic e log v)
   \<and> gated e log LogFatal s (Fatalf e log s) \<and> gated e log LogFatal (Sprintln v) (Fatal e log v)"
  unfolding Debugf_def Debug_def Infof_def Info_def Warnf_def Warn_def Errorf_def Error_def
    Panicf_def Panic_def Fatalf_def Fatal_def Let_def
  by (intro conjI gated_method level_ranges)

lemma log0_fields:
  "prefix log0 = ''SRV''" "flag log0 = 51" "out log0 = Stderr" "buf log0 = []" "file' log0 = None"
  "isolationLevel log0 = 0" "fileName log0 = ''app.log''" "fileDir log0 = ''./log''"
  "lastWriteDate log0 = 0"
  by (simp_all add: log0_def SetLogFile_def NewZinxLog_def BitDefault_def BitLevel_def
      BitShortFile_def BitStdFlag_def BitDate_def BitTime_def)

theorem severity_gate_witness:
  "sint (isolationLevel (SetLogLevel LogInfo log0)) > sint LogDebug
   \<and> suppressed (SetLogLevel LogInfo log0) (Debug env0 (SetLogLevel LogInfo log0) [''x''])
   \<and> \<not> sint (isolationLevel (SetLogLevel LogInfo log0)) > sint LogError
   \<and> \<not> suppressed (SetLogLevel LogInfo log0) (Errorf env0 (SetLogLevel LogInfo log0) ''boom 7'')
   \<and> emitted env0 (SetLogLevel LogInfo log0) LogError ''boom 7''
        (Errorf env0 (SetLogLevel LogInfo log0) ''boom 7'')
   \<and> wrote_line env0 (SetLogLevel LogInfo log0) LogError ''boom 7''
        (Errorf env0 (SetLogLevel LogInfo log0) ''boom 7'')
   \<and> line_text env0 (SetLogLevel LogInfo log0) LogError ''boom 7'' =
        ''<SRV>2019/04/11 11:15:33 [ERROR]server.go:42: boom 7'' @ [CHR 0x0A]
   \<and> fst (snd (Errorf env0 (SetLogLevel LogInfo log0) ''boom 7'')) =
        [Stat ''./log'', MkdirAll ''./log'', Stat ''./log/app.log.20190411'',
         OpenFile ''./log/app.log.20190411'' True,
         Write (FileWriter (Some 3))
           (''<SRV>2019/04/11 11:15:33 [ERROR]server.go:42: boom 7'' @ [CHR 0x0A])]"
proof -
  have l: "sint (isolationLevel (SetLogLevel LogInfo log0)) = 1"
    by (simp add: SetLogLevel_def sint_levels)
  note T = severity_gate [of env0 "SetLogLevel LogInfo log0" "''boom 7''" "[''x'']"]
  have a: "suppressed (SetLogLevel LogInfo log0) (Debug env0 (SetLogLevel LogInfo log0) [''x''])"
    using T l by (simp add: gated_def sint_levels Sprintln_def)
  have b: "\<not> suppressed (SetLogLevel LogInfo log0) (Errorf env0 (SetLogLevel LogInfo log0) ''boom 7'')"
    using T l by (simp add: gated_def sint_levels)
  have c: "emitted env0 (SetLogLevel LogInfo log0) LogError ''boom 7''
        (Errorf env0 (SetLogLevel LogInfo log0) ''boom 7'')"
    and d: "wrote_line env0 (SetLogLevel LogInfo log0) LogError ''boom 7''
        (Errorf env0 (SetLogLevel LogInfo log0) ''boom 7'')"
    using T b by (simp_all add: gated_def)
  have t: "line_text env0 (SetLogLevel LogInfo log0) LogError ''boom 7'' =
        ''<SRV>2019/04/11 11:15:33 [ERROR]server.go:42: boom 7'' @ [CHR 0x0A]"
    by code_simp
  have u: "updateOutputFile env0
        (SetLogLevel LogInfo log0
           \<lparr>buf := ''<SRV>2019/04/11 11:15:33 [ERROR]server.go:42: boom 7'' @ [CHR 0x0A]\<rparr>) =
      (SetLogLevel LogInfo log0
         \<lparr>out := FileWriter (Some 3),
          buf := ''<SRV>2019/04/11 11:15:33 [ERROR]server.go:42: boom 7'' @ [CHR 0x0A],
          file' := Some 3, lastWriteDate := 101\<rparr>,
       [Stat ''./log'', MkdirAll ''./log'', Stat ''./log/app.log.20190411'',
        OpenFile ''./log/app.log.20190411'' True])"
    by code_simp
  from d have e: "fst (snd (Errorf env0 (SetLogLevel LogInfo log0) ''boom 7'')) =
        [Stat ''./log'', MkdirAll ''./log'', Stat ''./log/app.log.20190411'',
         OpenFile ''./log/app.log.20190411'' True,
         Write (FileWriter (Some 3))
           (''<SRV>2019/04/11 11:15:33 [ERROR]server.go:42: boom 7'' @ [CHR 0x0A])]"
    unfolding wrote_line_def t u by simp
  from a b c d e t l show ?thesis by (simp add: sint_levels)
qed

lemma method_outcome:
  assumes "0 \<le> sint level \<and> sint level < 6"
  shows "snd (snd (if g then (log, [], Returned) else emit_then e log level s after)) =
         (if g then Returned else after)"
  using emit_then_emitted [OF assms, of e log s after] by simp

text \<open>
  C10 as stated fails: \<open>OutPut\<close> is exported and hands its level unchecked to
  \<open>formatHeader\<close>; a call with level 6 on a logger with the default flags panics at
  \<open>levels[level]\<close>.
\<close>

theorem OutPut_unchecked_level_counterexample:
  "OutPut env0 log0 6 ''x'' = Inl IndexOutOfRange"
  by code_simp

text \<open>
  C10, as amended. The table of severity tags has six entries, \<open>formatHeader\<close> does not
  panic when the level is one of 0 to 5, and none of the thirteen methods (the twelve
  severity methods and \<open>Stack\<close>) ends in an index-out-of-range panic: each passes one of
  the six level constants. \<open>OutPut\<close> itself checks nothing: it panics, with the index
  out of range, exactly when a time bit and the Level bit are set and the level is not one
  of 0 to 5.
\<close>

theorem levels_index_in_bounds:
  "length levels = 6
   \<and> (0 \<le> sint level \<and> sint level < 6 \<longrightarrow> (\<forall>p. formatHeader log t fl line level \<noteq> Inl p))
   \<and> snd (snd (Debugf e log s)) \<noteq> Panicked IndexOutOfRange
   \<and> snd (snd (Debug e log v)) \<noteq> Panicked IndexOutOfRange
   \<and> snd (snd (Infof e log s)) \<noteq> Panicked IndexOutOfRange
   \<and> snd (snd (Info e log v)) \<noteq> Panicked IndexOutOfRange
   \<and> snd (snd (Warnf e log s)) \<noteq> Panicked IndexOutOfRange
   \<and> snd (snd (Warn e log v)) \<noteq> Panicked IndexOutOfRange
   \<and> snd (snd (Errorf e log s)) \<noteq> Panicked IndexOutOfRange
   \<and> snd (snd (Error e log v)) \<noteq> Panicked IndexOutOfRange
   \<and> snd (snd (Panicf e log s)) \<noteq> Panicked IndexOutOfRange
   \<and> snd (snd (Panic e log v)) \<noteq> Panicked IndexOutOfRange
   \<and> snd (snd (Fatalf e log s)) \<noteq> Panicked IndexOutOfRange
   \<and> snd (snd (Fatal e log v)) \<noteq> Panicked IndexOutOfRange
   \<and> snd (snd (Stack e log s trace)) \<noteq> Panicked IndexOutOfRange
   \<and> (OutPut e log level s = Inl p \<longleftrightarrow>
        p = IndexOutOfRange \<and> flag log AND (BitDate OR BitTime OR BitMicroSeconds) \<noteq> 0 \<and>
        flag log AND BitLevel \<noteq> 0 \<and> \<not> (0 \<le> sint level \<and> sint level < 6))"
proof -
  have a: "length levels = 6" by (simp add: levels_def)
  have b: "0 \<le> sint level \<and> sint level < 6 \<longrightarrow> (\<forall>p. formatHeader log t fl line level \<noteq> Inl p)"
    by (simp add: formatHeader_panic)
  have st: "snd (snd (Stack e log s trace)) = Returned"
    using emit_then_emitted [OF level_ranges(4)] by (simp add: Stack_def Let_def)
  show ?thesis
    unfolding Debugf_def Debug_def Infof_def Info_def Warnf_def Warn_def Errorf_def Error_def
      Panicf_def Panic_def Fatalf_def Fatal_def Let_def
    using a b st OutPut_panic [of e log level s p] by (simp add: method_outcome level_ranges)
qed

theorem levels_index_in_bounds_witness:
  "0 \<le> sint LogFatal \<and> sint LogFatal < 6
   \<and> formatHeader log0 t0 ''server.go'' 42 LogFatal \<noteq> Inl IndexOutOfRange
   \<and> formatHeader log0 t0 ''server.go'' 42 6 = Inl IndexOutOfRange"
proof -
  have "formatHeader log0 t0 ''server.go'' 42 6 = Inl IndexOutOfRange"
    by (simp add: formatHeader_panic log0_fields BitDate_def BitTime_def BitMicroSeconds_def
        BitLevel_def)
  then show ?thesis
    using levels_index_in_bounds [where level = LogFatal and log = log0 and t = t0
        and fl = "''server.go''" and line = 42] level_ranges(6)
    by blast
qed

section \<open>Fatal and the isolation level\<close>

text \<open>
  C4 as stated fails: with the isolation level set to 6, \<open>Fatalf\<close> and \<open>Fatal\<close> return
  at once, with no write and no exit.
\<close>

theorem Fatal_suppressed_counterexample:
  "sint (isolationLevel (SetLogLevel 6 log0)) = 6
   \<and> Fatalf env0 (SetLogLevel 6 log0) ''die'' = (SetLogLevel 6 log0, [], Returned)
   \<and> Fatal env0 (SetLogLevel 6 log0) [''die''] = (SetLogLevel 6 log0, [], Returned)"
  by (simp add: Fatalf_def Fatal_def verifyLogIsolation_def SetLogLevel_def sint_levels)

text \<open>
  C4, as amended. \<open>Fatalf\<close> and \<open>Fatal\<close> pass the gate like every other severity method:
  when the isolation level is at most \<open>LogFatal\<close> they emit and then end the process
  with exit status 1, whatever the write returned; when the isolation level is greater than
  \<open>LogFatal\<close> they are suppressed and return without ending the process.
\<close>

theorem Fatal_exits_when_not_suppressed:
  "(sint (isolationLevel log) \<le> sint LogFatal \<longrightarrow>
      snd (snd (Fatalf e log s)) = Exited 1 \<and> emitted e log LogFatal s (Fatalf e log s) \<and>
      snd (snd (Fatal e log v)) = Exited 1 \<and> emitted e log LogFatal (Sprintln v) (Fatal e log v))
   \<and> (sint LogFatal < sint (isolationLevel log) \<longrightarrow>
      suppressed log (Fatalf e log s) \<and> suppressed log (Fatal e log v))"
proof -
  note gate [OF level_ranges(6) Fatalf_def [of e log s]]
    gate [OF level_ranges(6) Fatal_def [of e log v]]
  moreover have "sint (isolationLevel log) \<le> sint LogFatal \<longrightarrow>
      snd (snd (Fatalf e log s)) = Exited 1 \<and> snd (snd (Fatal e log v)) = Exited 1"
    using emit_then_emitted [OF level_ranges(6), of e log s "Exited 1"]
      emit_then_emitted [OF level_ranges(6), of e log "Sprintln v" "Exited 1"]
    by (simp add: Fatalf_def Fatal_def verifyLogIsolation_def)
  ultimately show ?thesis by auto
qed

theorem Fatal_exits_when_not_suppressed_witness:
  "sint (isolationLevel log0) \<le> sint LogFatal
   \<and> writeOut envWriteFails (FileWriter (Some 3)) ''x'' = Some ErrOther
   \<and> snd (snd (Fatalf envWriteFails log0 ''die'')) = Exited 1
   \<and> snd (snd (Fatal envWriteFails log0 [''die''])) = Exited 1
   \<and> sint LogFatal < sint (isolationLevel (SetLogLevel 6 log0))
   \<and> suppressed (SetLogLevel 6 log0) (Fatalf envWriteFails (SetLogLevel 6 log0) ''die'')"
proof -
  have h0: "sint (isolationLevel log0) \<le> sint LogFatal" by (simp add: log0_fields sint_levels)
  have h1: "sint LogFatal < sint (isolationLevel (SetLogLevel 6 log0))"
    by (simp add: SetLogLevel_def sint_levels)
  have w: "writeOut envWriteFails (FileWriter (Some 3)) ''x'' = Some ErrOther"
    by (simp add: writeOut_def envWriteFails_def)
  from Fatal_exits_when_not_suppressed [of log0 envWriteFails "''die''" "[''die'']"] h0
    Fatal_exits_when_not_suppressed [of "SetLogLevel 6 log0" envWriteFails "''die''" "[''die'']"] h1 w
  show ?thesis by blast
qed

text \<open>
  C8, as amended. For isolation levels \<open>L1 < L2\<close>, every severity that passes the gate
  under \<open>L2\<close> passes it under \<open>L1\<close>; and when \<open>L1\<close> is at most \<open>LogFatal\<close> and \<open>L2\<close>
  is greater than \<open>LogDebug\<close> (so for any two of the six named levels), one of the six
  severities passes under \<open>L1\<close> and is suppressed under \<open>L2\<close>.
\<close>

theorem isolation_monotone:
  "sint L1 < sint L2 \<longrightarrow>
     (\<not> verifyLogIsolation (SetLogLevel L2 log) s \<longrightarrow> \<not> verifyLogIsolation (SetLogLevel L1 log) s)
     \<and> (sint L1 \<le> sint LogFatal \<and> sint LogDebug < sint L2 \<longrightarrow>
          (\<exists>s' \<in> set severities.
             \<not> verifyLogIsolation (SetLogLevel L1 log) s' \<and> verifyLogIsolation (SetLogLevel L2 log) s'))"
proof (intro impI conjI)
  assume lt: "sint L1 < sint L2"
  {
    assume "\<not> verifyLogIsolation (SetLogLevel L2 log) s"
    then show "\<not> verifyLogIsolation (SetLogLevel L1 log) s"
      using lt by (auto simp: verifyLogIsolation_def SetLogLevel_def split: if_splits)
  }
  assume b: "sint L1 \<le> sint LogFatal \<and> sint LogDebug < sint L2"
  show "\<exists>s' \<in> set severities.
      \<not> verifyLogIsolation (SetLogLevel L1 log) s' \<and> verifyLogIsolation (SetLogLevel L2 log) s'"
  proof (cases "sint L1 < 0")
    case True
    then have "\<not> verifyLogIsolation (SetLogLevel L1 log) LogDebug \<and>
        verifyLogIsolation (SetLogLevel L2 log) LogDebug"
      using b by (simp add: verifyLogIsolation_def SetLogLevel_def sint_levels)
    moreover have "LogDebug \<in> set severities" by (simp add: severities_def)
    ultimately show ?thesis by blast
  next
    case False
    then have "sint L1 = 0 \<or> sint L1 = 1 \<or> sint L1 = 2 \<or> sint L1 = 3 \<or> sint L1 = 4 \<or> sint L1 = 5"
      using b by (simp add: sint_levels) arith
    then have "\<exists>s' \<in> set severities. sint s' = sint L1"
      by (auto simp: severities_def sint_levels)
    then obtain s' where s': "s' \<in> set severities" "sint s' = sint L1" by blast
    then have "\<not> verifyLogIsolation (SetLogLevel L1 log) s' \<and>
        verifyLogIsolation (SetLogLevel L2 log) s'"
      using lt by (simp add: verifyLogIsolation_def SetLogLevel_def)
    with s' show ?thesis by blast
  qed
qed

text \<open>
  C8 as stated fails: \<open>SetLogLevel\<close> takes any \<open>int\<close>, and under the levels 6 and 7
  alike each of the six severities is suppressed, so none is emitted under the lower level
  and suppressed under the higher.
\<close>

theorem isolation_not_strict_counterexample:
  "sint (6 :: go_int) < sint (7 :: go_int)
   \<and> severities = [LogDebug, LogInfo, LogWarn, LogError, LogPanic, LogFatal]
   \<and> verifyLogIsolation (SetLogLevel 6 log0) LogDebug
   \<and> verifyLogIsolation (SetLogLevel 6 log0) LogInfo
   \<and> verifyLogIsolation (SetLogLevel 6 log0) LogWarn
   \<and> verifyLogIsolation (SetLogLevel 6 log0) LogError
   \<and> verifyLogIsolation (SetLogLevel 6 log0) LogPanic
   \<and> verifyLogIsolation (SetLogLevel 6 log0) LogFatal"
  by (simp add: verifyLogIsolation_def SetLogLevel_def sint_levels severities_def)

theorem isolation_monotone_witness:
  "sint LogInfo < sint LogError
   \<and> sint LogInfo \<le> sint LogFatal \<and> sint LogDebug < sint LogError
   \<and> \<not> verifyLogIsolation (SetLogLevel LogError log0) LogPanic
   \<and> \<not> verifyLogIsolation (SetLogLevel LogInfo log0) LogPanic
   \<and> (\<exists>s' \<in> set severities.
        \<not> verifyLogIsolation (SetLogLevel LogInfo log0) s' \<and>
        verifyLogIsolation (SetLogLevel LogError log0) s')"
proof -
  have h: "sint LogInfo < sint LogError" "sint LogInfo \<le> sint LogFatal \<and> sint LogDebug < sint LogError"
    by (simp_all add: sint_levels)
  have p: "\<not> verifyLogIsolation (SetLogLevel LogError log0) LogPanic"
    by (simp add: verifyLogIsolation_def SetLogLevel_def sint_levels)
  from isolation_monotone [of LogInfo LogError log0 LogPanic] h p show ?thesis by blast
qed

section \<open>The line terminator\<close>

text \<open>
  C6 as stated fails for the empty message, which does not end in a line terminator: the
  text written is the header alone, with no terminator after it.
\<close>

theorem OutPut_empty_message_counterexample:
  "OutPut env0 log0 LogInfo [] =
     Inr (log0\<lparr>out := FileWriter (Some 3),
               buf := ''<SRV>2019/04/11 11:15:33 [INFO]server.go:42: '',
               file' := Some 3, lastWriteDate := 101\<rparr>,
          [Stat ''./log'', MkdirAll ''./log'', Stat ''./log/app.log.20190411'',
           OpenFile ''./log/app.log.20190411'' True,
           Write (FileWriter (Some 3)) ''<SRV>2019/04/11 11:15:33 [INFO]server.go:42: ''],
          None)"
  by code_simp

text \<open>
  C6, as amended. \<open>OutPut\<close> returns for every level from 0 to 5, and whenever it returns,
  its last system call writes to the sink the header, then the message, then one line
  terminator if the message is not empty and does not end in one, and nothing more if the
  message ends in a line terminator or is empty.
\<close>

theorem OutPut_line_terminator:
  "(0 \<le> sint level \<and> sint level < 6 \<longrightarrow> (\<exists>log' ev err. OutPut e log level s = Inr (log', ev, err)))
   \<and> (OutPut e log level s = Inr (log', ev, err) \<longrightarrow>
        ev \<noteq> [] \<and>
        last ev = Write (out log')
          (spec_header (prefix log) (flag log) (now e) (fst (callerInfo e log))
             (snd (callerInfo e log)) level @ s @
           (if s \<noteq> [] \<and> last s \<noteq> CHR 0x0A then [CHR 0x0A] else [])))"
proof -
  have a: "0 \<le> sint level \<and> sint level < 6 \<longrightarrow>
      (\<exists>log' ev err. OutPut e log level s = Inr (log', ev, err))"
    using OutPut_total [of level e log s] by blast
  have b: "ev \<noteq> [] \<and>
        last ev = Write (out log')
          (spec_header (prefix log) (flag log) (now e) (fst (callerInfo e log))
             (snd (callerInfo e log)) level @ s @
           (if s \<noteq> [] \<and> last s \<noteq> CHR 0x0A then [CHR 0x0A] else []))"
    if "OutPut e log level s = Inr (log', ev, err)"
  proof -
    from OutPut_Inr [OF that] obtain ev0 where
      "ev = ev0 @ [Write (out log') (buf log')]"
      "buf log' = spec_header (prefix log) (flag log) (now e) (fst (callerInfo e log))
                        (snd (callerInfo e log)) level @ s @ spec_terminator s"
      by blast
    then show ?thesis by (simp add: spec_terminator_def)
  qed
  from a b show ?thesis by blast
qed

theorem OutPut_line_terminator_witness:
  "0 \<le> sint LogInfo \<and> sint LogInfo < 6
   \<and> (\<exists>log' ev err. OutPut env0 log0 LogInfo ''hello'' = Inr (log', ev, err))
   \<and> OutPut env0 log0 LogInfo ''hello'' =
       Inr (logBound\<lparr>buf := ''<SRV>2019/04/11 11:15:33 [INFO]server.go:42: hello'' @ [CHR 0x0A]\<rparr>,
            [Stat ''./log'', MkdirAll ''./log'', Stat ''./log/app.log.20190411'',
             OpenFile ''./log/app.log.20190411'' True,
             Write (FileWriter (Some 3))
               (''<SRV>2019/04/11 11:15:33 [INFO]server.go:42: hello'' @ [CHR 0x0A])],
            None)
   \<and> spec_header (prefix log0) (flag log0) (now env0) (fst (callerInfo env0 log0))
         (snd (callerInfo env0 log0)) LogInfo @ ''hello'' @ [CHR 0x0A] =
       ''<SRV>2019/04/11 11:15:33 [INFO]server.go:42: hello'' @ [CHR 0x0A]"
proof -
  have o: "OutPut env0 log0 LogInfo ''hello'' =
       Inr (logBound\<lparr>buf := ''<SRV>2019/04/11 11:15:33 [INFO]server.go:42: hello'' @ [CHR 0x0A]\<rparr>,
            [Stat ''./log'', MkdirAll ''./log'', Stat ''./log/app.log.20190411'',
             OpenFile ''./log/app.log.20190411'' True,
             Write (FileWriter (Some 3))
               (''<SRV>2019/04/11 11:15:33 [INFO]server.go:42: hello'' @ [CHR 0x0A])],
            None)"
    by code_simp
  from OutPut_line_terminator [of LogInfo env0 log0 "''hello''", THEN conjunct2, rule_format, OF o]
  have "Write (FileWriter (Some 3)) (''<SRV>2019/04/11 11:15:33 [INFO]server.go:42: hello'' @ [CHR 0x0A]) =
      Write (out (logBound\<lparr>buf := ''<SRV>2019/04/11 11:15:33 [INFO]server.go:42: hello'' @ [CHR 0x0A]\<rparr>))
        (spec_header (prefix log0) (flag log0) (now env0) (fst (callerInfo env0 log0))
          (snd (callerInfo env0 log0)) LogInfo @ ''hello'' @ [CHR 0x0A])"
    by simp
  then have "spec_header (prefix log0) (flag log0) (now env0) (fst (callerInfo env0 log0))
         (snd (callerInfo env0 log0)) LogInfo @ ''hello'' @ [CHR 0x0A] =
       ''<SRV>2019/04/11 11:15:33 [INFO]server.go:42: hello'' @ [CHR 0x0A]"
    by simp
  moreover have "\<exists>log' ev err. OutPut env0 log0 LogInfo ''hello'' = Inr (log', ev, err)"
    using OutPut_line_terminator [of LogInfo env0 log0 "''hello''", THEN conjunct1] level_ranges(2)
    by blast
  ultimately show ?thesis using o level_ranges(2) by blast
qed

section \<open>Failures during rotation\<close>




lemma updateOutputFile_slow_file:
  assumes "\<not> (lastWriteDate log = nowYearDay e \<and> file' log \<noteq> None)"
  shows "file' (fst (updateOutputFile e log)) =
           (case openFile e (dailyFile e log) (IsNotExist (stat e (dailyFile e log))) of
              Inl _ \<Rightarrow> None | Inr f \<Rightarrow> Some f)"
    and "out (fst (updateOutputFile e log)) = FileWriter (file' (fst (updateOutputFile e log)))"
  using updateOutputFile_slow [OF assms] by auto







text \<open>
  C2 as stated fails: the open is refused, no file is bound, and \<open>lastWriteDate\<close> has
  changed from 0 to the day 101 all the same.
\<close>

theorem rotation_day_counterexample:
  "lastWriteDate log0 = 0 \<and> file' log0 = None
   \<and> openFile envOpenDenied ''./log/app.log.20190411'' True = Inl ErrPermission
   \<and> updateOutputFile envOpenDenied log0 =
       (log0\<lparr>out := FileWriter None, file' := None, lastWriteDate := 101\<rparr>,
        [Stat ''./log'', MkdirAll ''./log'', Stat ''./log/app.log.20190411'',
         OpenFile ''./log/app.log.20190411'' True])"
  by code_simp

text \<open>
  C2, as amended. \<open>lastWriteDate\<close> is set to the current day of the year in every
  execution of the slow path, whether or not the open then succeeds, and the fast path
  changes nothing: after every call of \<open>updateOutputFile\<close> the field is the current day
  of the year. On the slow path, a file is bound afterwards exactly when the open succeeded.
\<close>

theorem rotation_day_always_set:
  "lastWriteDate (fst (updateOutputFile e log)) = nowYearDay e
   \<and> (lastWriteDate log = nowYearDay e \<and> file' log \<noteq> None \<longrightarrow> updateOutputFile e log = (log, []))
   \<and> (\<not> (lastWriteDate log = nowYearDay e \<and> file' log \<noteq> None) \<longrightarrow>
        file' (fst (updateOutputFile e log)) =
          (case openFile e (dailyFile e log) (IsNotExist (stat e (dailyFile e log))) of
             Inl _ \<Rightarrow> None | Inr f \<Rightarrow> Some f))"
proof -
  have "file' (fst (updateOutputFile e log)) =
          (case openFile e (dailyFile e log) (IsNotExist (stat e (dailyFile e log))) of
             Inl _ \<Rightarrow> None | Inr f \<Rightarrow> Some f)"
    if "\<not> (lastWriteDate log = nowYearDay e \<and> file' log \<noteq> None)"
    using updateOutputFile_slow_file(1) [OF that] .
  then show ?thesis
    using updateOutputFile_day [of e log] updateOutputFile_fast [of log e] by blast
qed

theorem rotation_day_always_set_witness:
  "lastWriteDate logBound = nowYearDay env0 \<and> file' logBound \<noteq> None
   \<and> updateOutputFile env0 logBound = (logBound, [])
   \<and> \<not> (lastWriteDate log0 = nowYearDay envOpenDenied \<and> file' log0 \<noteq> None)
   \<and> lastWriteDate (fst (updateOutputFile envOpenDenied log0)) = nowYearDay envOpenDenied
   \<and> file' (fst (updateOutputFile envOpenDenied log0)) = None"
proof -
  have h: "lastWriteDate logBound = nowYearDay env0 \<and> file' logBound \<noteq> None"
    by (simp add: logBound_def env0_def)
  have h2: "\<not> (lastWriteDate log0 = nowYearDay envOpenDenied \<and> file' log0 \<noteq> None)"
    by (simp add: log0_fields)
  have o: "openFile envOpenDenied (dailyFile envOpenDenied log0)
      (IsNotExist (stat envOpenDenied (dailyFile envOpenDenied log0))) = Inl ErrPermission"
    by (simp add: envOpenDenied_def)
  from rotation_day_always_set [of env0 logBound] h
  have a: "updateOutputFile env0 logBound = (logBound, [])" by blast
  from rotation_day_always_set [of envOpenDenied log0] h2 o
  have b: "lastWriteDate (fst (updateOutputFile envOpenDenied log0)) = nowYearDay envOpenDenied"
    "file' (fst (updateOutputFile envOpenDenied log0)) = None"
    by simp_all
  from a b h h2 show ?thesis by blast
qed

end
